theory Spec2Isabelle
  imports Main "HOL-Library.AList"
begin

section \<open>JavaScript values, errors and promises\<close>

text \<open>
  Values that arrive from \<^verbatim>\<open>JSON.parse\<close> or from an HTTP response are typed
  \<^verbatim>\<open>any\<close> in the source. They are modelled as JSON values; \<open>None\<close> stands for
  \<^verbatim>\<open>undefined\<close>. Numbers are restricted to integers.
\<close>

datatype json =
    JNull
  | JBool bool
  | JNum int
  | JStr string
  | JArr "json list"
  | JObj "(string \<times> json) list"

type_synonym jsval = "json option"

text \<open>
  A thrown value is an error object. \<open>message\<close> is \<^verbatim>\<open>error.message\<close>,
  \<open>response_status\<close> is \<^verbatim>\<open>error.response?.status\<close> (set by axios when the server
  answered) and \<open>code\<close> is \<^verbatim>\<open>error.code\<close>.
\<close>

datatype js_error =
  JsError (message: string) (response_status: "nat option") (code: "string option")

definition Error :: "string \<Rightarrow> js_error" where
  "Error m = JsError m None None"

text \<open>
  The text of a \<^verbatim>\<open>TypeError\<close> is chosen by the engine; the strings below stand for
  it, and no statement depends on them.
\<close>

definition TypeError :: "string \<Rightarrow> js_error" where
  "TypeError m = JsError m None None"

text \<open>
  The settled state of a promise. Every \<^verbatim>\<open>await\<close> of the model is given a settled
  promise: a call that never settles (no request of the handler's imports but the ones to
  Reddit has a timeout) is outside the model.
\<close>

datatype 'a outcome = Rejected js_error | Resolved 'a

fun truthy :: "jsval \<Rightarrow> bool" where
  "truthy None = False"
| "truthy (Some JNull) = False"
| "truthy (Some (JBool b)) = b"
| "truthy (Some (JNum n)) = (n \<noteq> 0)"
| "truthy (Some (JStr s)) = (s \<noteq> [])"
| "truthy (Some (JArr xs)) = True"
| "truthy (Some (JObj kvs)) = True"

fun typeof :: "jsval \<Rightarrow> string" where
  "typeof None = ''undefined''"
| "typeof (Some JNull) = ''object''"
| "typeof (Some (JBool b)) = ''boolean''"
| "typeof (Some (JNum n)) = ''number''"
| "typeof (Some (JStr s)) = ''string''"
| "typeof (Some (JArr xs)) = ''object''"
| "typeof (Some (JObj kvs)) = ''object''"

fun string_value :: "jsval \<Rightarrow> string" where
  "string_value (Some (JStr s)) = s"
| "string_value v = []"

text \<open>
  \<^verbatim>\<open>v.k\<close> for the property names the source reads: apart from \<^verbatim>\<open>length\<close>, none
  of them is defined on strings, numbers, booleans or arrays. Reading a property of
  \<^verbatim>\<open>undefined\<close> or \<^verbatim>\<open>null\<close> throws; \<^verbatim>\<open>JSON.parse\<close> keeps the last of
  several equal keys. The length of a string is counted in \<open>char\<close>s.
\<close>

fun get_prop :: "jsval \<Rightarrow> string \<Rightarrow> js_error + jsval" where
  "get_prop None k =
     Inl (TypeError (''Cannot read properties of undefined (reading '' @ k @ '')''))"
| "get_prop (Some JNull) k =
     Inl (TypeError (''Cannot read properties of null (reading '' @ k @ '')''))"
| "get_prop (Some (JObj kvs)) k = Inr (map_of (rev kvs) k)"
| "get_prop (Some (JArr xs)) k =
     Inr (if k = ''length'' then Some (JNum (int (length xs))) else None)"
| "get_prop (Some (JStr s)) k =
     Inr (if k = ''length'' then Some (JNum (int (length s))) else None)"
| "get_prop (Some v) k = Inr None"

text \<open>\<^verbatim>\<open>v?.k\<close>\<close>

definition opt_prop :: "jsval \<Rightarrow> string \<Rightarrow> jsval" where
  "opt_prop v k = (case get_prop v k of Inl e \<Rightarrow> None | Inr x \<Rightarrow> x)"

text \<open>\<^verbatim>\<open>v[0]\<close> for a value that is neither \<^verbatim>\<open>undefined\<close> nor \<^verbatim>\<open>null\<close>.\<close>

fun first_element :: "jsval \<Rightarrow> jsval" where
  "first_element (Some (JArr (x # xs))) = Some x"
| "first_element (Some (JStr (c # cs))) = Some (JStr [c])"
| "first_element (Some (JObj kvs)) = map_of (rev kvs) ''0''"
| "first_element v = None"

text \<open>Decimal digits of a number, as \<^verbatim>\<open>`${n}`\<close> prints them.\<close>

definition digit_char :: "nat \<Rightarrow> char" where
  "digit_char n = ''0123456789'' ! (n mod 10)"

fun nat_to_string :: "nat \<Rightarrow> string" where
  "nat_to_string n =
     (if n < 10 then [digit_char n] else nat_to_string (n div 10) @ [digit_char (n mod 10)])"

declare nat_to_string.simps [simp del]

definition int_to_string :: "int \<Rightarrow> string" where
  "int_to_string i = (if i < 0 then CHR ''-'' # nat_to_string (nat (- i)) else nat_to_string (nat i))"

fun join :: "string \<Rightarrow> string list \<Rightarrow> string" where
  "join sep [] = []"
| "join sep [x] = x"
| "join sep (x # y # ys) = x @ sep @ join sep (y # ys)"

text \<open>String conversion inside a template literal, \<^verbatim>\<open>`${v}`\<close>.\<close>

fun json_to_string :: "json \<Rightarrow> string" where
  "json_to_string JNull = ''null''"
| "json_to_string (JBool b) = (if b then ''true'' else ''false'')"
| "json_to_string (JNum n) = int_to_string n"
| "json_to_string (JStr s) = s"
| "json_to_string (JArr xs) =
     join '','' (map (\<lambda>x. if x = JNull then [] else json_to_string x) xs)"
| "json_to_string (JObj kvs) = ''[object Object]''"

definition to_string :: "jsval \<Rightarrow> string" where
  "to_string v = (case v of None \<Rightarrow> ''undefined'' | Some j \<Rightarrow> json_to_string j)"

section \<open>The event stream and the effects of the handler\<close>

record YouTubeVideo =
  video_id :: jsval
  video_title :: jsval
  video_description :: jsval
  video_publishedAt :: jsval
  video_thumbnail :: jsval

record NewsArticle =
  news_title :: jsval
  news_url :: jsval
  news_source :: jsval

record RedditPost =
  post_title :: jsval
  post_url :: string
  post_subreddit :: jsval

record VideoIdea =
  idea_title :: string
  idea_thumbDesign :: string
  idea_videoIdea :: string

record PipelineResult =
  topics :: "string list"
  news :: "NewsArticle list"
  redditPosts :: "RedditPost list"
  videoIdeas :: "VideoIdea list"

text \<open>The optional \<^verbatim>\<open>data\<close> member of a progress payload.\<close>

datatype progress_data =
    VideoCount nat
  | TopicsData "string list"
  | NewsData "NewsArticle list"
  | RedditData "RedditPost list"
  | IdeasData "VideoIdea list"

text \<open>
  The second argument of \<^verbatim>\<open>sendSSE\<close>: a progress payload
  \<^verbatim>\<open>{ step, message, data? }\<close>, the final result, or \<^verbatim>\<open>{ message }\<close>.
\<close>

datatype sse_data =
    Progress (step: string) (progress_message: string) (progress_payload: "progress_data option")
  | Complete PipelineResult
  | ErrorMessage string

text \<open>
  One frame \<^verbatim>\<open>data: {"type": ..., "data": ...}\<close>; the JSON text and its encoding to
  bytes are not modelled.
\<close>

datatype sse_frame = Frame (frame_type: string) (frame_data: sse_data)

text \<open>
  What a run of the handler does, in order: frames handed to
  \<^verbatim>\<open>controller.enqueue\<close>, \<^verbatim>\<open>controller.close()\<close>, and calls of the five imported
  functions (by name).
\<close>

datatype action = Enqueue sse_frame | Close | Invoke string

type_synonym 'a io = "action list \<Rightarrow> (js_error + 'a) \<times> action list"

definition unit_io :: "'a \<Rightarrow> 'a io" where
  "unit_io x = (\<lambda>tr. (Inr x, tr))"

definition throw :: "js_error \<Rightarrow> 'a io" where
  "throw e = (\<lambda>tr. (Inl e, tr))"

definition bind_io :: "'a io \<Rightarrow> ('a \<Rightarrow> 'b io) \<Rightarrow> 'b io" where
  "bind_io m k = (\<lambda>tr. case m tr of (Inl e, tr') \<Rightarrow> (Inl e, tr') | (Inr x, tr') \<Rightarrow> k x tr')"

definition then_io :: "unit io \<Rightarrow> 'b io \<Rightarrow> 'b io" where
  "then_io m k = bind_io m (\<lambda>_. k)"

definition try_catch :: "'a io \<Rightarrow> (js_error \<Rightarrow> 'a io) \<Rightarrow> 'a io" where
  "try_catch m h = (\<lambda>tr. case m tr of (Inl e, tr') \<Rightarrow> h e tr' | (Inr x, tr') \<Rightarrow> (Inr x, tr'))"

definition lift :: "js_error + 'a \<Rightarrow> 'a io" where
  "lift r = (case r of Inl e \<Rightarrow> throw e | Inr x \<Rightarrow> unit_io x)"

text \<open>
  \<^verbatim>\<open>controller.enqueue\<close> and \<^verbatim>\<open>controller.close\<close> throw a \<^verbatim>\<open>TypeError\<close> on a
  stream that is already closed. Only the handler closes the stream: a consumer that
  cancels it while the run goes on is outside the model.
\<close>

definition closed :: "action list \<Rightarrow> bool" where
  "closed tr = (Close \<in> set tr)"

definition enqueue :: "sse_frame \<Rightarrow> unit io" where
  "enqueue f = (\<lambda>tr.
     if closed tr then (Inl (TypeError ''Invalid state: Controller is already closed''), tr)
     else (Inr (), tr @ [Enqueue f]))"

definition close :: "unit io" where
  "close = (\<lambda>tr.
     if closed tr then (Inl (TypeError ''Invalid state: Controller is already closed''), tr)
     else (Inr (), tr @ [Close]))"

text \<open>Calling an async function returns its promise; it never throws at the call.\<close>

definition invoke :: "string \<Rightarrow> 'a outcome \<Rightarrow> 'a outcome io" where
  "invoke name p = (\<lambda>tr. (Inr p, tr @ [Invoke name]))"

definition await :: "'a outcome \<Rightarrow> 'a io" where
  "await p = (case p of Rejected e \<Rightarrow> throw e | Resolved v \<Rightarrow> unit_io v)"

text \<open>
  \<^verbatim>\<open>Promise.all([p, q])\<close>: rejects with the reason of the input that rejects first in
  time, otherwise resolves to both values in the order of the inputs. \<open>first_settles_first\<close>
  says which of the two calls in flight settles first.
\<close>

definition promise_all2 :: "bool \<Rightarrow> 'a outcome \<Rightarrow> 'b outcome \<Rightarrow> ('a \<times> 'b) outcome" where
  "promise_all2 first_settles_first p q =
     (case (p, q) of
        (Resolved x, Resolved y) \<Rightarrow> Resolved (x, y)
      | (Rejected e, Resolved y) \<Rightarrow> Rejected e
      | (Resolved x, Rejected e) \<Rightarrow> Rejected e
      | (Rejected e1, Rejected e2) \<Rightarrow> Rejected (if first_settles_first then e1 else e2))"

section \<open>The request handler\<close>

text \<open>\<^verbatim>\<open>sendSSE(controller, type, data)\<close>\<close>

definition sendSSE :: "string \<Rightarrow> sse_data \<Rightarrow> unit io" where
  "sendSSE type data = enqueue (Frame type data)"

text \<open>
  The five functions the handler imports, as functions from their arguments to the
  settled state of the promise they return, and the order in which the two calls of the
  parallel stage settle.
\<close>

record collaborators =
  videoLookup :: "string \<Rightarrow> YouTubeVideo list outcome"
  topicExtraction :: "YouTubeVideo list \<Rightarrow> string list outcome"
  newsSearch :: "string list \<Rightarrow> NewsArticle list outcome"
  discussionSearch :: "string list \<Rightarrow> RedditPost list outcome"
  ideaGeneration ::
    "string list \<Rightarrow> NewsArticle list \<Rightarrow> RedditPost list \<Rightarrow> jsval list \<Rightarrow> VideoIdea list outcome"
  news_settles_first :: bool

text \<open>Lines 75 to 94: idea generation, the final result, closing the stream.\<close>

definition generate_and_complete ::
  "collaborators \<Rightarrow> YouTubeVideo list \<Rightarrow> string list \<Rightarrow> NewsArticle list \<Rightarrow> RedditPost list
    \<Rightarrow> unit io" where
  "generate_and_complete deps videos tps nws posts =
     then_io (sendSSE ''progress''
        (Progress ''generating_ideas'' ''Generating video ideas with AI...'' None))
     (let sampleTitles = map video_title videos in
      bind_io (invoke ''generateVideoIdeas'' (ideaGeneration deps tps nws posts sampleTitles))
      (\<lambda>p. bind_io (await p)
      (\<lambda>ideas.
        then_io (sendSSE ''progress''
          (Progress ''ideas_generated'' ''Generated 5 video ideas'' (Some (IdeasData ideas))))
       (then_io (sendSSE ''complete''
          (Complete \<lparr>topics = tps, news = nws, redditPosts = posts, videoIdeas = ideas\<rparr>))
        close))))"

text \<open>Lines 52 to 73: the two calls in flight together, then their two reports.\<close>

definition news_and_reddit ::
  "collaborators \<Rightarrow> YouTubeVideo list \<Rightarrow> string list \<Rightarrow> unit io" where
  "news_and_reddit deps videos tps =
     then_io (sendSSE ''progress'' (Progress ''fetching_news'' ''Fetching relevant news...'' None))
     (bind_io (invoke ''fetchRelevantNews'' (newsSearch deps tps))
     (\<lambda>newsPromise.
       then_io (sendSSE ''progress''
         (Progress ''searching_reddit'' ''Searching Reddit discussions...'' None))
      (bind_io (invoke ''searchRedditPosts'' (discussionSearch deps tps))
      (\<lambda>redditPromise.
        bind_io (await (promise_all2 (news_settles_first deps) newsPromise redditPromise))
        (\<lambda>(nws, posts).
          then_io (sendSSE ''progress''
            (Progress ''news_fetched''
               (''Found '' @ nat_to_string (length nws) @ '' news articles'')
               (Some (NewsData nws))))
         (then_io (sendSSE ''progress''
            (Progress ''reddit_searched''
               (''Found '' @ nat_to_string (length posts) @ '' Reddit discussions'')
               (Some (RedditData posts))))
          (generate_and_complete deps videos tps nws posts)))))))"

text \<open>Lines 42 to 50: topic analysis.\<close>

definition analyze ::
  "collaborators \<Rightarrow> YouTubeVideo list \<Rightarrow> unit io" where
  "analyze deps videos =
     then_io (sendSSE ''progress''
        (Progress ''analyzing_topics'' ''Analyzing topics with AI...'' None))
     (bind_io (invoke ''analyzeTopics'' (topicExtraction deps videos))
     (\<lambda>p. bind_io (await p)
     (\<lambda>tps.
       then_io (sendSSE ''progress''
         (Progress ''topics_analyzed''
            (''Identified '' @ nat_to_string (length tps) @ '' main topics'')
            (Some (TopicsData tps))))
       (news_and_reddit deps videos tps))))"

text \<open>Lines 26 to 40: the video lookup and the check for an empty result.\<close>

definition fetch_videos :: "collaborators \<Rightarrow> string \<Rightarrow> unit io" where
  "fetch_videos deps url =
     then_io (sendSSE ''progress'' (Progress ''fetching_videos'' ''Fetching YouTube videos...'' None))
     (bind_io (invoke ''fetchChannelVideos'' (videoLookup deps url))
     (\<lambda>p. bind_io (await p)
     (\<lambda>videos.
       if length videos = 0 then
         then_io (sendSSE ''error'' (ErrorMessage ''No videos found for this channel'')) close
       else
         then_io (sendSSE ''progress''
           (Progress ''videos_fetched''
              (''Found '' @ nat_to_string (length videos) @ '' videos'')
              (Some (VideoCount (length videos)))))
         (analyze deps videos))))"

text \<open>
  Lines 17 to 94, the body of the \<^verbatim>\<open>try\<close> block. \<open>body\<close> is the settled state of
  \<^verbatim>\<open>request.json()\<close>: rejected with the parse error, or resolved to the parsed value.
  Destructuring \<^verbatim>\<open>{ url }\<close> reads the property \<^verbatim>\<open>url\<close> and throws on
  \<^verbatim>\<open>null\<close>.
\<close>

definition try_block :: "collaborators \<Rightarrow> json outcome \<Rightarrow> unit io" where
  "try_block deps body =
     bind_io (await body)
     (\<lambda>parsed. bind_io (lift (get_prop (Some parsed) ''url''))
     (\<lambda>url.
       if \<not> truthy url \<or> typeof url \<noteq> ''string'' then
         then_io (sendSSE ''error'' (ErrorMessage ''YouTube channel URL is required'')) close
       else fetch_videos deps (string_value url)))"

text \<open>Lines 95 to 101, the \<^verbatim>\<open>catch\<close> block.\<close>

definition catch_block :: "js_error \<Rightarrow> unit io" where
  "catch_block error =
     then_io (sendSSE ''error''
        (ErrorMessage (if message error \<noteq> [] then message error
                       else ''An error occurred while analyzing the channel'')))
     close"

text \<open>The \<^verbatim>\<open>start\<close> callback of the stream (lines 16 to 102).\<close>

definition start :: "collaborators \<Rightarrow> json outcome \<Rightarrow> unit io" where
  "start deps body = try_catch (try_block deps body) catch_block"

text \<open>
  \<^verbatim>\<open>POST\<close>: the settled state of \<^verbatim>\<open>start\<close> and everything it did on a fresh stream.
\<close>

definition POST :: "collaborators \<Rightarrow> json outcome \<Rightarrow> (js_error + unit) \<times> action list" where
  "POST deps body = start deps body []"

text \<open>The frames of a run, in the order they were written.\<close>

fun frames :: "action list \<Rightarrow> sse_frame list" where
  "frames [] = []"
| "frames (Enqueue f # tr) = f # frames tr"
| "frames (a # tr) = frames tr"

definition terminal :: "sse_frame \<Rightarrow> bool" where
  "terminal f = (frame_type f = ''complete'' \<or> frame_type f = ''error'')"

text \<open>The step names of the progress frames of a run.\<close>

fun progress_steps :: "sse_frame list \<Rightarrow> string list" where
  "progress_steps [] = []"
| "progress_steps (Frame t (Progress s m d) # fs) =
     (if t = ''progress'' then s # progress_steps fs else progress_steps fs)"
| "progress_steps (f # fs) = progress_steps fs"

text \<open>The table of the consumer (\<^verbatim>\<open>stepOrder\<close> in \<^verbatim>\<open>handleSubmit\<close>) and \<^verbatim>\<open>indexOf\<close>.\<close>

definition stepOrder :: "string list" where
  "stepOrder =
     [''starting'', ''fetching_videos'', ''videos_fetched'', ''analyzing_topics'',
      ''topics_analyzed'', ''fetching_news'', ''searching_reddit'', ''news_fetched'',
      ''reddit_searched'', ''generating_ideas'', ''ideas_generated'']"

fun indexOf_from :: "int \<Rightarrow> 'a list \<Rightarrow> 'a \<Rightarrow> int" where
  "indexOf_from i [] x = -1"
| "indexOf_from i (y # ys) x = (if y = x then i else indexOf_from (i + 1) ys x)"

definition indexOf :: "'a list \<Rightarrow> 'a \<Rightarrow> int" where
  "indexOf xs x = indexOf_from 0 xs x"

section \<open>HTTP requests through axios\<close>

text \<open>
  What the network gives for one request: no usable answer (axios rejects with the given
  error: a timeout, a refused connection), or a status and a body.
\<close>

datatype http_reply = NoReply js_error | Reply nat jsval

text \<open>
  \<^verbatim>\<open>axios.get\<close>: resolves to the response when \<^verbatim>\<open>validateStatus\<close> accepts the status,
  otherwise rejects with an error that carries the response. The default
  \<^verbatim>\<open>validateStatus\<close> accepts 200 to 299.
\<close>

definition status_error :: "nat \<Rightarrow> js_error" where
  "status_error st =
     JsError (''Request failed with status code '' @ nat_to_string st) (Some st)
       (if 400 \<le> st \<and> st < 500 then Some ''ERR_BAD_REQUEST''
        else if 500 \<le> st \<and> st < 600 then Some ''ERR_BAD_RESPONSE'' else None)"

definition axios_get :: "(nat \<Rightarrow> bool) \<Rightarrow> http_reply \<Rightarrow> js_error + nat \<times> jsval" where
  "axios_get validateStatus r =
     (case r of
        NoReply e \<Rightarrow> Inl e
      | Reply st d \<Rightarrow> if validateStatus st then Inr (st, d) else Inl (status_error st))"

definition default_validateStatus :: "nat \<Rightarrow> bool" where
  "default_validateStatus st = (200 \<le> st \<and> st < 300)"

text \<open>Sequencing of steps that may throw.\<close>

definition bind_sum :: "js_error + 'a \<Rightarrow> ('a \<Rightarrow> js_error + 'b) \<Rightarrow> js_error + 'b" where
  "bind_sum r k = (case r of Inl e \<Rightarrow> Inl e | Inr x \<Rightarrow> k x)"

text \<open>\<^verbatim>\<open>xs.filter(f)\<close> and \<^verbatim>\<open>xs.map(f)\<close> with a callback that may throw.\<close>

fun filter_throwing :: "('a \<Rightarrow> js_error + bool) \<Rightarrow> 'a list \<Rightarrow> js_error + 'a list" where
  "filter_throwing f [] = Inr []"
| "filter_throwing f (x # xs) =
     bind_sum (f x) (\<lambda>keep. bind_sum (filter_throwing f xs)
       (\<lambda>rest. Inr (if keep then x # rest else rest)))"

fun map_throwing :: "('a \<Rightarrow> js_error + 'b) \<Rightarrow> 'a list \<Rightarrow> js_error + 'b list" where
  "map_throwing f [] = Inr []"
| "map_throwing f (x # xs) =
     bind_sum (f x) (\<lambda>y. bind_sum (map_throwing f xs) (\<lambda>rest. Inr (y # rest)))"

text \<open>
  \<^verbatim>\<open>new Map(entries)\<close> followed by \<^verbatim>\<open>.values()\<close>: a key keeps the position of its
  first entry and the value of its last one.
\<close>

definition js_Map :: "('k \<times> 'v) list \<Rightarrow> ('k \<times> 'v) list" where
  "js_Map entries = fold (\<lambda>(k, v) m. AList.update k v m) entries []"

definition Map_values :: "('k \<times> 'v) list \<Rightarrow> 'v list" where
  "Map_values m = map snd m"

section \<open>Discussion search\<close>

text \<open>
  The answers of Reddit, by the position of the topic among the search terms, the
  endpoint and the topic. Each such request is made at most once in a call.
\<close>

record reddit_world =
  reddit_http :: "nat \<Rightarrow> string \<Rightarrow> string \<Rightarrow> http_reply"

text \<open>The callback of \<^verbatim>\<open>.filter\<close>: \<^verbatim>\<open>child.data && !child.data.over_18\<close>.\<close>

definition keep_child :: "json \<Rightarrow> js_error + bool" where
  "keep_child child =
     bind_sum (get_prop (Some child) ''data'')
     (\<lambda>d. if truthy d then bind_sum (get_prop d ''over_18'') (\<lambda>adult. Inr (\<not> truthy adult))
           else Inr False)"

text \<open>The callback of \<^verbatim>\<open>.map\<close>.\<close>

definition child_post :: "json \<Rightarrow> js_error + RedditPost" where
  "child_post child =
     bind_sum (get_prop (Some child) ''data'')
     (\<lambda>d. bind_sum (get_prop d ''title'')
     (\<lambda>t. bind_sum (get_prop d ''permalink'')
     (\<lambda>permalink. bind_sum (get_prop d ''subreddit'')
     (\<lambda>sr. Inr \<lparr>post_title = t,
                 post_url = ''https://www.reddit.com'' @ to_string permalink,
                 post_subreddit = sr\<rparr>))))"

text \<open>
  \<^verbatim>\<open>response.data.data.children.filter(...).map(...)\<close> on a truthy \<^verbatim>\<open>children\<close>:
  calling \<^verbatim>\<open>.filter\<close> on anything but an array throws.
\<close>

definition children_posts :: "jsval \<Rightarrow> js_error + RedditPost list" where
  "children_posts children =
     (case children of
        Some (JArr cs) \<Rightarrow> bind_sum (filter_throwing keep_child cs) (map_throwing child_post)
      | _ \<Rightarrow> Inl (TypeError ''response.data.data.children.filter is not a function''))"

definition endpoints :: "string list" where
  "endpoints = [''https://www.reddit.com/search.json'', ''https://old.reddit.com/search.json'']"

text \<open>
  The body of the inner \<^verbatim>\<open>try\<close> for one endpoint (lines 37 to 85). \<open>Some posts\<close>: the
  posts were pushed and the loop over the endpoints is left; \<open>None\<close>: the next endpoint
  is tried. The two waits (\<^verbatim>\<open>setTimeout\<close>) and the logging change no value.
\<close>

definition try_endpoint ::
  "reddit_world \<Rightarrow> nat \<Rightarrow> string \<Rightarrow> string \<Rightarrow> js_error + RedditPost list option" where
  "try_endpoint w i topic endpoint =
     bind_sum (axios_get (\<lambda>status. status < 500) (reddit_http w i endpoint topic))
     (\<lambda>(status, d).
        if status = 403 then Inr None
        else if status = 429 then Inr None
        else
          let children = opt_prop (opt_prop d ''data'') ''children'' in
          if truthy children then bind_sum (children_posts children) (\<lambda>posts. Inr (Some posts))
          else Inr None)"

text \<open>The inner \<^verbatim>\<open>catch\<close> (lines 86 to 98): every branch goes on to the next endpoint.\<close>

definition catch_endpoint :: "js_error \<Rightarrow> RedditPost list option" where
  "catch_endpoint error =
     (if response_status error = Some 403 then None
      else if code error = Some ''ECONNABORTED'' \<or> code error = Some ''ETIMEDOUT'' then None
      else None)"

definition endpoint_result ::
  "reddit_world \<Rightarrow> nat \<Rightarrow> string \<Rightarrow> string \<Rightarrow> RedditPost list option" where
  "endpoint_result w i topic endpoint =
     (case try_endpoint w i topic endpoint of Inl error \<Rightarrow> catch_endpoint error | Inr r \<Rightarrow> r)"

text \<open>The loop over the endpoints for one topic; the result is \<open>(allPosts, success)\<close>.\<close>

fun search_topic ::
  "reddit_world \<Rightarrow> nat \<Rightarrow> string \<Rightarrow> string list \<Rightarrow> RedditPost list \<Rightarrow> RedditPost list \<times> bool" where
  "search_topic w i topic [] allPosts = (allPosts, False)"
| "search_topic w i topic (endpoint # rest) allPosts =
     (case endpoint_result w i topic endpoint of
        Some posts \<Rightarrow> (allPosts @ posts, True)
      | None \<Rightarrow> search_topic w i topic rest allPosts)"

text \<open>The loop over the search terms, from position \<open>i\<close> on.\<close>

fun search_topics ::
  "reddit_world \<Rightarrow> nat \<Rightarrow> string list \<Rightarrow> RedditPost list \<Rightarrow> RedditPost list" where
  "search_topics w i [] allPosts = allPosts"
| "search_topics w i (topic # rest) allPosts =
     search_topics w (Suc i) rest (fst (search_topic w i topic endpoints allPosts))"

text \<open>Lines 107 to 110.\<close>

definition uniquePosts :: "RedditPost list \<Rightarrow> RedditPost list" where
  "uniquePosts allPosts =
     take 10 (Map_values (js_Map (map (\<lambda>post. (post_url post, post)) allPosts)))"

text \<open>The body of the outer \<^verbatim>\<open>try\<close> (lines 16 to 112) and the outer \<^verbatim>\<open>catch\<close>.\<close>

definition searchRedditPosts_try :: "reddit_world \<Rightarrow> string list \<Rightarrow> js_error + RedditPost list" where
  "searchRedditPosts_try w tps =
     (let searchTerms = take 3 tps;
          allPosts = search_topics w 0 searchTerms []
      in Inr (uniquePosts allPosts))"

definition searchRedditPosts_catch :: "js_error \<Rightarrow> RedditPost list outcome" where
  "searchRedditPosts_catch error = Resolved []"

definition searchRedditPosts :: "reddit_world \<Rightarrow> string list \<Rightarrow> RedditPost list outcome" where
  "searchRedditPosts w tps =
     (case searchRedditPosts_try w tps of
        Inl error \<Rightarrow> searchRedditPosts_catch error
      | Inr posts \<Rightarrow> Resolved posts)"

text \<open>
  The other \<^verbatim>\<open>searchRedditPosts\<close> of the sources (the second file in
  \<^verbatim>\<open>src/lib/news.ts\<close>): one endpoint, the default \<^verbatim>\<open>validateStatus\<close>, one
  \<^verbatim>\<open>try\<close> for each topic.
\<close>

definition try_topic_v1 :: "reddit_world \<Rightarrow> nat \<Rightarrow> string \<Rightarrow> js_error + RedditPost list" where
  "try_topic_v1 w i topic =
     bind_sum (axios_get default_validateStatus
                 (reddit_http w i ''https://www.reddit.com/search.json'' topic))
     (\<lambda>(status, d).
        let children = opt_prop (opt_prop d ''data'') ''children'' in
        if truthy children then children_posts children else Inr [])"

fun search_topics_v1 ::
  "reddit_world \<Rightarrow> nat \<Rightarrow> string list \<Rightarrow> RedditPost list \<Rightarrow> RedditPost list" where
  "search_topics_v1 w i [] allPosts = allPosts"
| "search_topics_v1 w i (topic # rest) allPosts =
     search_topics_v1 w (Suc i) rest
       (case try_topic_v1 w i topic of Inl error \<Rightarrow> allPosts | Inr posts \<Rightarrow> allPosts @ posts)"

definition searchRedditPosts_v1_try ::
  "reddit_world \<Rightarrow> string list \<Rightarrow> js_error + RedditPost list" where
  "searchRedditPosts_v1_try w tps =
     (let searchTerms = take 3 tps;
          allPosts = search_topics_v1 w 0 searchTerms []
      in Inr (uniquePosts allPosts))"

definition searchRedditPosts_v1 :: "reddit_world \<Rightarrow> string list \<Rightarrow> RedditPost list outcome" where
  "searchRedditPosts_v1 w tps =
     (case searchRedditPosts_v1_try w tps of
        Inl error \<Rightarrow> searchRedditPosts_catch error
      | Inr posts \<Rightarrow> Resolved posts)"

text \<open>
  What the contract of the discussion search speaks about: an entry of a listing is
  marked adult when its \<^verbatim>\<open>data.over_18\<close> is truthy; \<open>post_of\<close> is the post made
  from an entry; \<open>listed\<close> are the entries of the listings that Reddit returns at the
  two endpoints for the first three topics.
\<close>

definition marked_adult :: "json \<Rightarrow> bool" where
  "marked_adult child = truthy (opt_prop (opt_prop (Some child) ''data'') ''over_18'')"

definition post_of :: "json \<Rightarrow> RedditPost" where
  "post_of child =
     (let d = opt_prop (Some child) ''data'' in
      \<lparr>post_title = opt_prop d ''title'',
       post_url = ''https://www.reddit.com'' @ to_string (opt_prop d ''permalink''),
       post_subreddit = opt_prop d ''subreddit''\<rparr>)"

definition reply_children :: "http_reply \<Rightarrow> json list" where
  "reply_children r =
     (case r of
        NoReply e \<Rightarrow> []
      | Reply status d \<Rightarrow>
          (case opt_prop (opt_prop d ''data'') ''children'' of
             Some (JArr cs) \<Rightarrow> cs
           | _ \<Rightarrow> []))"

definition listed_at :: "reddit_world \<Rightarrow> nat \<Rightarrow> string \<Rightarrow> json list" where
  "listed_at w i topic =
     concat (map (\<lambda>endpoint. reply_children (reddit_http w i endpoint topic)) endpoints)"

definition listed :: "reddit_world \<Rightarrow> string list \<Rightarrow> json list" where
  "listed w tps = concat (map (\<lambda>i. listed_at w i (tps ! i)) [0..<min 3 (length tps)])"

section \<open>News search\<close>

record news_world =
  NEWS_API_KEY :: "string option"
  news_http :: "string \<Rightarrow> http_reply"

text \<open>\<^verbatim>\<open>!apiKey\<close> for an environment variable: unset or empty.\<close>

definition env_missing :: "string option \<Rightarrow> bool" where
  "env_missing v = (case v of None \<Rightarrow> True | Some s \<Rightarrow> s = [])"

text \<open>\<^verbatim>\<open>topics[0] || topics.join(' ')\<close>\<close>

definition mainTopic :: "string list \<Rightarrow> string" where
  "mainTopic tps =
     (case tps of [] \<Rightarrow> join '' '' tps | t # ts \<Rightarrow> if t \<noteq> [] then t else join '' '' tps)"

text \<open>\<^verbatim>\<open>a || b\<close> on values.\<close>

definition js_or :: "jsval \<Rightarrow> jsval \<Rightarrow> jsval" where
  "js_or a b = (if truthy a then a else b)"

definition keep_article :: "json \<Rightarrow> js_error + bool" where
  "keep_article article =
     bind_sum (get_prop (Some article) ''title'')
     (\<lambda>t. if truthy t then bind_sum (get_prop (Some article) ''url'') (\<lambda>u. Inr (truthy u))
           else Inr False)"

definition article_news :: "json \<Rightarrow> js_error + NewsArticle" where
  "article_news article =
     bind_sum (get_prop (Some article) ''title'')
     (\<lambda>t. bind_sum (get_prop (Some article) ''url'')
     (\<lambda>u. bind_sum (get_prop (Some article) ''source'')
     (\<lambda>src. Inr \<lparr>news_title = t, news_url = u,
                  news_source = js_or (opt_prop src ''name'') (Some (JStr ''Unknown''))\<rparr>)))"

text \<open>The body of the \<^verbatim>\<open>try\<close> (lines 22 to 52).\<close>

definition fetchRelevantNews_try :: "news_world \<Rightarrow> string list \<Rightarrow> js_error + NewsArticle list" where
  "fetchRelevantNews_try w tps =
     bind_sum (axios_get default_validateStatus (news_http w (mainTopic tps)))
     (\<lambda>(status, d). bind_sum (get_prop d ''articles'')
     (\<lambda>articles.
        if truthy articles then
          (case articles of
             Some (JArr arts) \<Rightarrow>
               bind_sum (filter_throwing keep_article arts)
                 (\<lambda>kept. map_throwing article_news (take 5 kept))
           | _ \<Rightarrow> Inl (TypeError ''response.data.articles.filter is not a function''))
        else Inr []))"

definition fetchRelevantNews :: "news_world \<Rightarrow> string list \<Rightarrow> NewsArticle list outcome" where
  "fetchRelevantNews w tps =
     (if env_missing (NEWS_API_KEY w) then Resolved []
      else (case fetchRelevantNews_try w tps of
              Inl error \<Rightarrow> Resolved []
            | Inr articles \<Rightarrow> Resolved articles))"

section \<open>Video lookup\<close>

text \<open>
  The outcome of the lookups inside the \<^verbatim>\<open>try\<close> block of \<^verbatim>\<open>getChannelId\<close> (lines
  43 to 107) is a parameter, by identifier and type; so are the answers to the two
  requests of \<^verbatim>\<open>fetchChannelVideos\<close>, by the channel and the playlist they ask for.
\<close>

record youtube_world =
  YOUTUBE_API_KEY :: "string option"
  channel_id_lookup :: "string \<Rightarrow> string \<Rightarrow> js_error + jsval"
  channels_http :: "jsval \<Rightarrow> http_reply"
  playlistItems_http :: "jsval \<Rightarrow> http_reply"

text \<open>The character class \<^verbatim>\<open>[a-zA-Z0-9_-]\<close>.\<close>

definition is_id_char :: "char \<Rightarrow> bool" where
  "is_id_char c =
     (let n = (of_char c :: nat) in
      (97 \<le> n \<and> n \<le> 122) \<or> (65 \<le> n \<and> n \<le> 90) \<or> (48 \<le> n \<and> n \<le> 57)
      \<or> c = CHR ''_'' \<or> c = CHR ''-'')"

text \<open>
  \<^verbatim>\<open>s.match(/lit([a-zA-Z0-9_-]+)/)\<close> for a literal text \<open>lit\<close>: the leftmost place where
  \<open>lit\<close> is followed by a character of the class, and the longest run of such
  characters there.
\<close>

definition match_here :: "string \<Rightarrow> string \<Rightarrow> string option" where
  "match_here lit s =
     (if take (length lit) s = lit \<and> takeWhile is_id_char (drop (length lit) s) \<noteq> []
      then Some (takeWhile is_id_char (drop (length lit) s)) else None)"

fun match_after :: "string \<Rightarrow> string \<Rightarrow> string option" where
  "match_after lit [] = match_here lit []"
| "match_after lit (c # cs) =
     (case match_here lit (c # cs) of Some m \<Rightarrow> Some m | None \<Rightarrow> match_after lit cs)"

definition patterns :: "(string \<times> string) list" where
  "patterns =
     [(''youtube.com/channel/'', ''id''),
      (''youtube.com/c/'', ''username''),
      (''youtube.com/user/'', ''username''),
      (''youtube.com/@'', ''handle'')]"

fun first_pattern :: "(string \<times> string) list \<Rightarrow> string \<Rightarrow> (string \<times> string) option" where
  "first_pattern [] url = None"
| "first_pattern ((lit, type) # rest) url =
     (case match_after lit url of Some m \<Rightarrow> Some (type, m) | None \<Rightarrow> first_pattern rest url)"

text \<open>The result is \<open>(type, value)\<close>.\<close>

definition extractChannelIdentifier :: "string \<Rightarrow> (string \<times> string) option" where
  "extractChannelIdentifier url = first_pattern patterns url"

definition getChannelId :: "youtube_world \<Rightarrow> string \<Rightarrow> string \<Rightarrow> jsval outcome" where
  "getChannelId w identifier type =
     (if env_missing (YOUTUBE_API_KEY w) then Rejected (Error ''YOUTUBE_API_KEY is not set'')
      else (case channel_id_lookup w identifier type of
              Inl error \<Rightarrow> Resolved (Some JNull)
            | Inr r \<Rightarrow> Resolved r))"

text \<open>The callback of \<^verbatim>\<open>.map\<close> (lines 165 to 171).\<close>

definition item_video :: "json \<Rightarrow> js_error + YouTubeVideo" where
  "item_video item =
     bind_sum (get_prop (Some item) ''snippet'')
     (\<lambda>snippet. bind_sum (get_prop snippet ''resourceId'')
     (\<lambda>resourceId. bind_sum (get_prop resourceId ''videoId'')
     (\<lambda>videoId. bind_sum (get_prop snippet ''title'')
     (\<lambda>t. bind_sum (get_prop snippet ''description'')
     (\<lambda>d. bind_sum (get_prop snippet ''publishedAt'')
     (\<lambda>publishedAt. bind_sum (get_prop snippet ''thumbnails'')
     (\<lambda>thumbnails. bind_sum (get_prop thumbnails ''high'')
     (\<lambda>high. bind_sum
        (if truthy (opt_prop high ''url'') then Inr (opt_prop high ''url'')
         else bind_sum (get_prop thumbnails ''default'') (\<lambda>dflt. get_prop dflt ''url''))
     (\<lambda>thumb. Inr \<lparr>video_id = videoId, video_title = t, video_description = d,
                    video_publishedAt = publishedAt, video_thumbnail = thumb\<rparr>)))))))))"

text \<open>\<^verbatim>\<open>playlistResponse.data.items.map(...)\<close>\<close>

definition items_videos :: "jsval \<Rightarrow> js_error + YouTubeVideo list" where
  "items_videos its =
     (case its of
        None \<Rightarrow> Inl (TypeError ''Cannot read properties of undefined (reading map)'')
      | Some JNull \<Rightarrow> Inl (TypeError ''Cannot read properties of null (reading map)'')
      | Some (JArr xs) \<Rightarrow> map_throwing item_video xs
      | _ \<Rightarrow> Inl (TypeError ''playlistResponse.data.items.map is not a function''))"

text \<open>The body of the \<^verbatim>\<open>try\<close> (lines 140 to 173).\<close>

definition fetch_try :: "youtube_world \<Rightarrow> jsval \<Rightarrow> js_error + YouTubeVideo list" where
  "fetch_try w channelId =
     bind_sum (axios_get default_validateStatus (channels_http w channelId))
     (\<lambda>(status, d). bind_sum (get_prop d ''items'')
     (\<lambda>its.
        if \<not> truthy its then Inl (Error ''Channel not found'')
        else bind_sum (get_prop its ''length'')
        (\<lambda>len.
           if len = Some (JNum 0) then Inl (Error ''Channel not found'')
           else bind_sum (get_prop (first_element its) ''contentDetails'')
           (\<lambda>contentDetails. bind_sum (get_prop contentDetails ''relatedPlaylists'')
           (\<lambda>relatedPlaylists. bind_sum (get_prop relatedPlaylists ''uploads'')
           (\<lambda>uploadsPlaylistId.
              bind_sum (axios_get default_validateStatus (playlistItems_http w uploadsPlaylistId))
              (\<lambda>(status2, d2). bind_sum (get_prop d2 ''items'') items_videos)))))))"

text \<open>The \<^verbatim>\<open>catch\<close> (lines 174 to 182): what is thrown in place of the caught error.\<close>

definition fetch_catch :: "js_error \<Rightarrow> js_error" where
  "fetch_catch error =
     (if response_status error = Some 403
        then Error ''YouTube API quota exceeded or invalid API key''
      else if response_status error = Some 404 then Error ''Channel not found''
      else Error (''Failed to fetch videos: '' @ message error))"

text \<open>Lines 128 to 137: the channel id, resolved first unless the URL names it.\<close>

definition resolve_channel :: "youtube_world \<Rightarrow> string \<times> string \<Rightarrow> js_error + jsval" where
  "resolve_channel w identifier =
     (case identifier of (type, v) \<Rightarrow>
        if type \<noteq> ''id'' then
          (case getChannelId w v type of
             Rejected e \<Rightarrow> Inl e
           | Resolved resolvedId \<Rightarrow>
               if \<not> truthy resolvedId then Inl (Error ''Could not resolve channel ID from URL'')
               else Inr resolvedId)
        else Inr (Some (JStr v)))"

definition fetchChannelVideos :: "youtube_world \<Rightarrow> string \<Rightarrow> YouTubeVideo list outcome" where
  "fetchChannelVideos w url =
     (if env_missing (YOUTUBE_API_KEY w) then Rejected (Error ''YOUTUBE_API_KEY is not set'')
      else
        (case extractChannelIdentifier url of
           None \<Rightarrow> Rejected (Error ''Invalid YouTube channel URL'')
         | Some identifier \<Rightarrow>
             (case resolve_channel w identifier of
                Inl e \<Rightarrow> Rejected e
              | Inr channelId \<Rightarrow>
                  (case fetch_try w channelId of
                     Inl error \<Rightarrow> Rejected (fetch_catch error)
                   | Inr videos \<Rightarrow> Resolved videos))))"

section \<open>The consumer\<close>

text \<open>The progress list that \<^verbatim>\<open>handleSubmit\<close> sets before it sends the request.\<close>

record ProgressStep =
  ps_step :: string
  ps_message :: string
  ps_completed :: bool

definition initial_progress :: "ProgressStep list" where
  "initial_progress =
     [\<lparr>ps_step = ''starting'', ps_message = ''Starting analysis...'', ps_completed = False\<rparr>]"

section \<open>Runs of the handler\<close>

text \<open>The three kinds of frame, as the actions that write them.\<close>

abbreviation emit_progress :: "string \<Rightarrow> string \<Rightarrow> progress_data option \<Rightarrow> action" where
  "emit_progress s m d \<equiv> Enqueue (Frame ''progress'' (Progress s m d))"
abbreviation emit_error :: "string \<Rightarrow> action" where
  "emit_error m \<equiv> Enqueue (Frame ''error'' (ErrorMessage m))"
abbreviation emit_complete :: "PipelineResult \<Rightarrow> action" where
  "emit_complete r \<equiv> Enqueue (Frame ''complete'' (Complete r))"

text \<open>
  The actions of a run from each stage on, with what the \<^verbatim>\<open>catch\<close> block writes for
  an error \<open>e\<close>. They are proved below to be what \<^const>\<open>POST\<close> does.
\<close>

definition caught :: "js_error \<Rightarrow> action list" where
  "caught e = [emit_error (if message e \<noteq> [] then message e else ''An error occurred while analyzing the channel''), Close]"

definition ideas_actions :: "collaborators \<Rightarrow> YouTubeVideo list \<Rightarrow> string list \<Rightarrow> NewsArticle list \<Rightarrow> RedditPost list \<Rightarrow> action list" where
  "ideas_actions deps videos tps nws posts =
     [emit_progress ''generating_ideas'' ''Generating video ideas with AI...'' None,
      Invoke ''generateVideoIdeas''] @
     (case ideaGeneration deps tps nws posts (map video_title videos) of
        Rejected e \<Rightarrow> caught e
      | Resolved ideas \<Rightarrow>
          [emit_progress ''ideas_generated'' ''Generated 5 video ideas'' (Some (IdeasData ideas)),
           emit_complete \<lparr>topics = tps, news = nws, redditPosts = posts, videoIdeas = ideas\<rparr>,
           Close])"

definition stage4_actions :: "collaborators \<Rightarrow> YouTubeVideo list \<Rightarrow> string list \<Rightarrow> action list" where
  "stage4_actions deps videos tps =
     [emit_progress ''fetching_news'' ''Fetching relevant news...'' None,
      Invoke ''fetchRelevantNews'',
      emit_progress ''searching_reddit'' ''Searching Reddit discussions...'' None,
      Invoke ''searchRedditPosts''] @
     (case promise_all2 (news_settles_first deps) (newsSearch deps tps) (discussionSearch deps tps) of
        Rejected e \<Rightarrow> caught e
      | Resolved (nws, posts) \<Rightarrow>
          [emit_progress ''news_fetched''
             (''Found '' @ nat_to_string (length nws) @ '' news articles'') (Some (NewsData nws)),
           emit_progress ''reddit_searched''
             (''Found '' @ nat_to_string (length posts) @ '' Reddit discussions'')
             (Some (RedditData posts))]
          @ ideas_actions deps videos tps nws posts)"

definition topics_actions :: "collaborators \<Rightarrow> YouTubeVideo list \<Rightarrow> action list" where
  "topics_actions deps videos =
     [emit_progress ''analyzing_topics'' ''Analyzing topics with AI...'' None,
      Invoke ''analyzeTopics''] @
     (case topicExtraction deps videos of
        Rejected e \<Rightarrow> caught e
      | Resolved tps \<Rightarrow>
          emit_progress ''topics_analyzed''
            (''Identified '' @ nat_to_string (length tps) @ '' main topics'') (Some (TopicsData tps))
          # stage4_actions deps videos tps)"

definition videos_actions :: "collaborators \<Rightarrow> string \<Rightarrow> action list" where
  "videos_actions deps url =
     [emit_progress ''fetching_videos'' ''Fetching YouTube videos...'' None,
      Invoke ''fetchChannelVideos''] @
     (case videoLookup deps url of
        Rejected e \<Rightarrow> caught e
      | Resolved videos \<Rightarrow>
          if videos = [] then [emit_error ''No videos found for this channel'', Close]
          else emit_progress ''videos_fetched''
                 (''Found '' @ nat_to_string (length videos) @ '' videos'')
                 (Some (VideoCount (length videos)))
               # topics_actions deps videos)"

definition run_actions :: "collaborators \<Rightarrow> json outcome \<Rightarrow> action list" where
  "run_actions deps body =
     (case body of
        Rejected e \<Rightarrow> caught e
      | Resolved parsed \<Rightarrow>
          (case get_prop (Some parsed) ''url'' of
             Inl e \<Rightarrow> caught e
           | Inr url \<Rightarrow>
               if \<not> truthy url \<or> typeof url \<noteq> ''string''
               then [emit_error ''YouTube channel URL is required'', Close]
               else videos_actions deps (string_value url)))"

text \<open>The imported functions a run calls, in order.\<close>

fun invoked :: "action list \<Rightarrow> string list" where
  "invoked [] = []"
| "invoked (Invoke n # tr) = n # invoked tr"
| "invoked (a # tr) = invoked tr"

text \<open>The step names a run reports, in order.\<close>

definition steps_of :: "action list \<Rightarrow> string list" where
  "steps_of tr = progress_steps (frames tr)"

text \<open>
  A run that ends with one terminal frame and, right after it, the close of the stream:
  nothing before that frame is terminal, and the stream was not closed before.
\<close>

definition ends_with_terminal :: "action list \<Rightarrow> bool" where
  "ends_with_terminal tr =
     (\<exists>pre f. tr = pre @ [Enqueue f, Close] \<and>
        ((\<exists>r. f = Frame ''complete'' (Complete r)) \<or> (\<exists>m. f = Frame ''error'' (ErrorMessage m))) \<and>
        \<not> closed pre \<and> filter terminal (frames pre) = [])"

section \<open>Example inputs\<close>

text \<open>
  A channel with three videos, the topics Tech and AI, no news, no discussions and two
  ideas.
\<close>

definition example_video :: "string \<Rightarrow> YouTubeVideo" where
  "example_video t = \<lparr>video_id = Some (JStr ''v''), video_title = Some (JStr t),
     video_description = Some (JStr []), video_publishedAt = Some (JStr ''2024-01-01T00:00:00Z''),
     video_thumbnail = Some (JStr ''https://i.ytimg.com/vi/v/hqdefault.jpg'')\<rparr>"

definition example_ideas :: "VideoIdea list" where
  "example_ideas =
     [\<lparr>idea_title = ''Idea 1'', idea_thumbDesign = ''Bold text'', idea_videoIdea = ''First''\<rparr>,
      \<lparr>idea_title = ''Idea 2'', idea_thumbDesign = ''Bright colours'', idea_videoIdea = ''Second''\<rparr>]"

definition example_collaborators :: collaborators where
  "example_collaborators =
     \<lparr>videoLookup = (\<lambda>url. Resolved [example_video ''A'', example_video ''B'', example_video ''C'']),
      topicExtraction = (\<lambda>videos. Resolved [''Tech'', ''AI'']),
      newsSearch = (\<lambda>tps. Resolved []),
      discussionSearch = (\<lambda>tps. Resolved []),
      ideaGeneration = (\<lambda>tps nws posts titles. Resolved example_ideas),
      news_settles_first = True\<rparr>"

definition example_request :: "json outcome" where
  "example_request = Resolved (JObj [(''url'', JStr ''https://www.youtube.com/@example'')])"

text \<open>
  The platform answers the lookup of the channel with status 404.
\<close>

definition example_youtube :: youtube_world where
  "example_youtube =
     \<lparr>YOUTUBE_API_KEY = Some ''key'',
      channel_id_lookup = (\<lambda>identifier type. Inr (Some (JStr ''UC123''))),
      channels_http = (\<lambda>channelId. Reply 404 None),
      playlistItems_http = (\<lambda>playlistId. Reply 200 None)\<rparr>"

text \<open>
  Reddit refuses the first endpoint and answers the second with three entries: a
  thread, an adult thread and the first thread again.
\<close>

definition example_child :: "string \<Rightarrow> bool \<Rightarrow> json" where
  "example_child permalink adult =
     JObj [(''data'', JObj [(''title'', JStr ''A thread''), (''permalink'', JStr permalink),
                            (''subreddit'', JStr ''technology''), (''over_18'', JBool adult)])]"

definition example_reddit :: reddit_world where
  "example_reddit =
     \<lparr>reddit_http = (\<lambda>i endpoint topic.
        if endpoint = ''https://www.reddit.com/search.json'' then Reply 403 None
        else Reply 200 (Some (JObj [(''data'', JObj [(''children'',
               JArr [example_child ''/r/technology/1'' False,
                     example_child ''/r/technology/2'' True,
                     example_child ''/r/technology/1'' False])])])))\<rparr>"

section \<open>The handler's runs, computed\<close>

lemmas io_defs = unit_io_def throw_def bind_io_def then_io_def try_catch_def lift_def
  enqueue_def close_def invoke_def await_def sendSSE_def closed_def

lemma catch_block_run: "\<not> closed tr \<Longrightarrow> catch_block e tr = (Inr (), tr @ caught e)"
  by (simp add: catch_block_def caught_def io_defs)

lemma try_catch_bind:
  "try_catch (bind_io m k) h tr =
     (case m tr of (Inl e, tr') \<Rightarrow> h e tr' | (Inr x, tr') \<Rightarrow> try_catch (k x) h tr')"
  by (simp add: try_catch_def bind_io_def split: prod.splits sum.splits)

lemma try_catch_then:
  "try_catch (then_io m k) h tr =
     (case m tr of (Inl e, tr') \<Rightarrow> h e tr' | (Inr x, tr') \<Rightarrow> try_catch k h tr')"
  by (simp add: then_io_def try_catch_bind)

lemma sendSSE_run: "\<not> closed tr \<Longrightarrow> sendSSE t d tr = (Inr (), tr @ [Enqueue (Frame t d)])"
  by (simp add: sendSSE_def enqueue_def)

lemma closed_simps:
  "closed [] = False"
  "closed (a # tr) = (a = Close \<or> closed tr)"
  "closed (tr @ tr') = (closed tr \<or> closed tr')"
  by (auto simp: closed_def)

lemma invoke_run: "invoke n p tr = (Inr p, tr @ [Invoke n])"
  by (simp add: invoke_def)

lemma await_run: "await p tr = (case p of Rejected e \<Rightarrow> (Inl e, tr) | Resolved v \<Rightarrow> (Inr v, tr))"
  by (simp add: await_def throw_def unit_io_def split: outcome.splits)

lemma try_catch_close: "\<not> closed tr \<Longrightarrow> try_catch close h tr = (Inr (), tr @ [Close])"
  by (simp add: try_catch_def close_def)

lemmas run_simps = try_catch_bind try_catch_then sendSSE_run closed_simps invoke_run await_run
  try_catch_close catch_block_run

lemma generate_and_complete_run:
  "\<not> closed tr \<Longrightarrow>
   try_catch (generate_and_complete deps videos tps nws posts) catch_block tr =
     (Inr (), tr @ ideas_actions deps videos tps nws posts)"
  by (simp add: generate_and_complete_def ideas_actions_def run_simps split: outcome.splits)

lemma news_and_reddit_run:
  "\<not> closed tr \<Longrightarrow>
   try_catch (news_and_reddit deps videos tps) catch_block tr =
     (Inr (), tr @ stage4_actions deps videos tps)"
  by (simp add: news_and_reddit_def stage4_actions_def run_simps generate_and_complete_run
      split: outcome.splits prod.splits)

lemma analyze_run:
  "\<not> closed tr \<Longrightarrow>
   try_catch (analyze deps videos) catch_block tr = (Inr (), tr @ topics_actions deps videos)"
  by (simp add: analyze_def topics_actions_def run_simps news_and_reddit_run
      split: outcome.splits)

lemma fetch_videos_run:
  "\<not> closed tr \<Longrightarrow>
   try_catch (fetch_videos deps url) catch_block tr = (Inr (), tr @ videos_actions deps url)"
  by (simp add: fetch_videos_def videos_actions_def run_simps analyze_run
      split: outcome.splits)


lemma lift_run: "lift r tr = (case r of Inl e \<Rightarrow> (Inl e, tr) | Inr x \<Rightarrow> (Inr x, tr))"
  by (simp add: lift_def throw_def unit_io_def split: sum.splits)

lemma POST_run: "POST deps body = (Inr (), run_actions deps body)"
  by (simp add: POST_def start_def try_block_def run_actions_def run_simps lift_run
      fetch_videos_run split: outcome.splits sum.splits)


lemmas actions_defs = run_actions_def videos_actions_def topics_actions_def stage4_actions_def
  ideas_actions_def caught_def

lemma example_url:
  "get_prop (Some (JObj [(''url'', JStr ''https://www.youtube.com/@example'')])) ''url'' =
     Inr (Some (JStr ''https://www.youtube.com/@example''))"
  by simp

lemma example_run:
  "run_actions example_collaborators example_request =
     [emit_progress ''fetching_videos'' ''Fetching YouTube videos...'' None,
      Invoke ''fetchChannelVideos'',
      emit_progress ''videos_fetched'' ''Found 3 videos'' (Some (VideoCount 3)),
      emit_progress ''analyzing_topics'' ''Analyzing topics with AI...'' None,
      Invoke ''analyzeTopics'',
      emit_progress ''topics_analyzed'' ''Identified 2 main topics''
        (Some (TopicsData [''Tech'', ''AI''])),
      emit_progress ''fetching_news'' ''Fetching relevant news...'' None,
      Invoke ''fetchRelevantNews'',
      emit_progress ''searching_reddit'' ''Searching Reddit discussions...'' None,
      Invoke ''searchRedditPosts'',
      emit_progress ''news_fetched'' ''Found 0 news articles'' (Some (NewsData [])),
      emit_progress ''reddit_searched'' ''Found 0 Reddit discussions'' (Some (RedditData [])),
      emit_progress ''generating_ideas'' ''Generating video ideas with AI...'' None,
      Invoke ''generateVideoIdeas'',
      emit_progress ''ideas_generated'' ''Generated 5 video ideas''
        (Some (IdeasData example_ideas)),
      emit_complete
        \<lparr>topics = [''Tech'', ''AI''], news = [], redditPosts = [], videoIdeas = example_ideas\<rparr>,
      Close]"
  by (simp add: actions_defs example_collaborators_def example_request_def promise_all2_def
      nat_to_string.simps digit_char_def)

section \<open>Input validation\<close>

text \<open>
  Claim C4. When the parsed body has no \<^verbatim>\<open>url\<close>, an empty one, or one that is not a
  string, the run consists of one \<^verbatim>\<open>error\<close> frame followed at once by the close of
  the stream, and none of the five imported functions is called. For every body but
  \<^verbatim>\<open>null\<close> the message is the one of the validation; destructuring \<^verbatim>\<open>null\<close>
  throws, and the frame carries the message of that error.
\<close>

theorem invalid_url_is_rejected_first:
  assumes "url = opt_prop (Some parsed) ''url''"
    and "url = None \<or> url = Some (JStr []) \<or> typeof url \<noteq> ''string''"
  shows "(\<exists>m. POST deps (Resolved parsed) = (Inr (), [emit_error m, Close])) \<and>
         invoked (snd (POST deps (Resolved parsed))) = [] \<and>
         (parsed \<noteq> JNull \<longrightarrow>
            POST deps (Resolved parsed) =
              (Inr (), [emit_error ''YouTube channel URL is required'', Close]))"
proof (cases "get_prop (Some parsed) ''url''")
  case (Inl e)
  then have "parsed = JNull" by (cases parsed) simp_all
  with Inl show ?thesis by (simp add: POST_run actions_defs)
next
  case (Inr v)
  with assms have "\<not> truthy v \<or> typeof v \<noteq> ''string''"
    by (auto simp: opt_prop_def)
  with Inr show ?thesis by (simp add: POST_run actions_defs)
qed

theorem invalid_url_is_rejected_first_witness:
  "POST example_collaborators (Resolved (JObj [(''url'', JStr [])])) =
     (Inr (), [emit_error ''YouTube channel URL is required'', Close]) \<and>
   invoked (snd (POST example_collaborators (Resolved (JObj [(''url'', JStr [])])))) = []"
  using invalid_url_is_rejected_first
    [of "Some (JStr [])" "JObj [(''url'', JStr [])]" example_collaborators]
  by (simp add: opt_prop_def)

text \<open>
  Claim C10. When \<^verbatim>\<open>request.json()\<close> rejects, the run consists of one
  \<^verbatim>\<open>error\<close> frame that carries the message of the parse error, followed by the close
  of the stream, and none of the imported functions is called. The \<^verbatim>\<open>catch\<close> block
  replaces an empty message by a fixed text; the parse errors of a JavaScript engine
  have a message, which is the hypothesis.
\<close>

theorem invalid_json_is_terminal_error:
  assumes "message e \<noteq> []"
  shows "POST deps (Rejected e) = (Inr (), [emit_error (message e), Close]) \<and>
         invoked (snd (POST deps (Rejected e))) = []"
  using assms by (simp add: POST_run actions_defs)

theorem invalid_json_is_terminal_error_witness:
  "POST example_collaborators (Rejected (JsError ''Unexpected end of JSON input'' None None)) =
     (Inr (), [emit_error ''Unexpected end of JSON input'', Close])"
  using invalid_json_is_terminal_error
    [of "JsError ''Unexpected end of JSON input'' None None" example_collaborators]
  by simp

section \<open>Video lookup failures\<close>

text \<open>
  Every error that \<^const>\<open>fetchChannelVideos\<close> rejects with has a message: each is made by
  \<^verbatim>\<open>new Error\<close> with a text that is not empty.
\<close>

lemma fetch_catch_message: "message (fetch_catch error) \<noteq> []"
  by (simp add: fetch_catch_def Error_def)

lemma resolve_channel_message:
  "resolve_channel w identifier = Inl e \<Longrightarrow> message e \<noteq> []"
  by (auto simp: resolve_channel_def getChannelId_def Error_def
      split: prod.splits if_splits outcome.splits sum.splits)

lemma fetchChannelVideos_message:
  assumes "fetchChannelVideos w url = Rejected e"
  shows "message e \<noteq> []"
  using assms
  by (auto simp: fetchChannelVideos_def Error_def fetch_catch_message
      split: if_splits option.splits sum.splits dest: resolve_channel_message)

text \<open>
  With any function in the place of the video lookup, a rejection ends the run with one
  \<^verbatim>\<open>error\<close> frame; an empty message is replaced by the fixed text of the
  \<^verbatim>\<open>catch\<close> block.
\<close>

lemma video_lookup_rejection_run:
  assumes "get_prop (Some parsed) ''url'' = Inr (Some (JStr u))" and "u \<noteq> []"
    and "videoLookup deps u = Rejected e"
  shows "POST deps (Resolved parsed) =
           (Inr (),
            [emit_progress ''fetching_videos'' ''Fetching YouTube videos...'' None,
             Invoke ''fetchChannelVideos'',
             emit_error (if message e \<noteq> [] then message e
                         else ''An error occurred while analyzing the channel''),
             Close])"
  using assms by (simp add: POST_run actions_defs)

text \<open>
  Claim C6. When the video lookup rejects with an error, the run is: the announcement of
  the lookup, the one call of the lookup, one \<^verbatim>\<open>error\<close> frame that carries the
  message of that error unchanged, and the close of the stream. There is no second call
  and no \<^verbatim>\<open>complete\<close> frame. This holds for \<^const>\<open>fetchChannelVideos\<close>, whatever
  the platform answers, and for any function in its place that rejects with a message
  that is not empty.
\<close>

theorem video_lookup_error_is_reported:
  assumes "get_prop (Some parsed) ''url'' = Inr (Some (JStr u))" and "u \<noteq> []"
    and "videoLookup deps u = Rejected e"
    and "videoLookup deps = fetchChannelVideos w \<or> message e \<noteq> []"
  shows "POST deps (Resolved parsed) =
           (Inr (),
            [emit_progress ''fetching_videos'' ''Fetching YouTube videos...'' None,
             Invoke ''fetchChannelVideos'',
             emit_error (message e),
             Close])"
proof -
  from assms(3,4) have "message e \<noteq> []"
    using fetchChannelVideos_message [of w u e] by auto
  with assms(1-3) show ?thesis by (simp add: POST_run actions_defs)
qed

lemma example_identifier:
  "extractChannelIdentifier ''https://www.youtube.com/@example'' = Some (''handle'', ''example'')"
  by (simp add: extractChannelIdentifier_def patterns_def match_here_def is_id_char_def)

lemma example_youtube_rejects:
  "fetchChannelVideos example_youtube ''https://www.youtube.com/@example'' =
     Rejected (Error ''Channel not found'')"
  by (simp add: fetchChannelVideos_def example_youtube_def env_missing_def example_identifier
      resolve_channel_def getChannelId_def fetch_try_def axios_get_def default_validateStatus_def
      bind_sum_def status_error_def fetch_catch_def)

theorem video_lookup_error_is_reported_witness:
  "POST (example_collaborators\<lparr>videoLookup := fetchChannelVideos example_youtube\<rparr>)
      example_request =
     (Inr (),
      [emit_progress ''fetching_videos'' ''Fetching YouTube videos...'' None,
       Invoke ''fetchChannelVideos'',
       emit_error ''Channel not found'',
       Close])"
  unfolding example_request_def
  using video_lookup_error_is_reported
    [OF example_url, of
      "example_collaborators\<lparr>videoLookup := fetchChannelVideos example_youtube\<rparr>"
      "Error ''Channel not found''" example_youtube]
    example_youtube_rejects
  by (simp add: Error_def)

text \<open>
  Claim C7. When the video lookup resolves to an empty array, the run is: the
  announcement of the lookup, its call, one \<^verbatim>\<open>error\<close> frame with the message
  \<^verbatim>\<open>No videos found for this channel\<close>, and the close of the stream. Topic analysis
  and the later stages are not reached.
\<close>

theorem no_videos_is_terminal_error:
  assumes "get_prop (Some parsed) ''url'' = Inr (Some (JStr u))" and "u \<noteq> []"
    and "videoLookup deps u = Resolved []"
  shows "POST deps (Resolved parsed) =
           (Inr (),
            [emit_progress ''fetching_videos'' ''Fetching YouTube videos...'' None,
             Invoke ''fetchChannelVideos'',
             emit_error ''No videos found for this channel'',
             Close])"
  using assms by (simp add: POST_run actions_defs)

theorem no_videos_is_terminal_error_witness:
  "POST (example_collaborators\<lparr>videoLookup := (\<lambda>url. Resolved [])\<rparr>) example_request =
     (Inr (),
      [emit_progress ''fetching_videos'' ''Fetching YouTube videos...'' None,
       Invoke ''fetchChannelVideos'',
       emit_error ''No videos found for this channel'',
       Close])"
  unfolding example_request_def
  using no_videos_is_terminal_error
    [OF example_url, of "example_collaborators\<lparr>videoLookup := (\<lambda>url. Resolved [])\<rparr>"]
  by simp

section \<open>Successful runs\<close>

text \<open>
  Claim C5. For a URL that is a non-empty string, when the video lookup resolves to at
  least one video and the four other calls resolve, the run ends with the
  \<^verbatim>\<open>complete\<close> frame and the close of the stream; the payload holds the four arrays
  \<^verbatim>\<open>topics\<close>, \<^verbatim>\<open>news\<close>, \<^verbatim>\<open>redditPosts\<close> and \<^verbatim>\<open>videoIdeas\<close> as the calls
  resolved them (the news and the posts may be empty). The whole run is given.
\<close>

theorem complete_carries_all_four_arrays:
  assumes "get_prop (Some parsed) ''url'' = Inr (Some (JStr u))" and "u \<noteq> []"
    and "videoLookup deps u = Resolved videos" and "videos \<noteq> []"
    and "topicExtraction deps videos = Resolved tps"
    and "newsSearch deps tps = Resolved nws"
    and "discussionSearch deps tps = Resolved posts"
    and "ideaGeneration deps tps nws posts (map video_title videos) = Resolved ideas"
  shows "POST deps (Resolved parsed) =
           (Inr (),
            [emit_progress ''fetching_videos'' ''Fetching YouTube videos...'' None,
             Invoke ''fetchChannelVideos'',
             emit_progress ''videos_fetched''
               (''Found '' @ nat_to_string (length videos) @ '' videos'')
               (Some (VideoCount (length videos))),
             emit_progress ''analyzing_topics'' ''Analyzing topics with AI...'' None,
             Invoke ''analyzeTopics'',
             emit_progress ''topics_analyzed''
               (''Identified '' @ nat_to_string (length tps) @ '' main topics'')
               (Some (TopicsData tps)),
             emit_progress ''fetching_news'' ''Fetching relevant news...'' None,
             Invoke ''fetchRelevantNews'',
             emit_progress ''searching_reddit'' ''Searching Reddit discussions...'' None,
             Invoke ''searchRedditPosts'',
             emit_progress ''news_fetched''
               (''Found '' @ nat_to_string (length nws) @ '' news articles'')
               (Some (NewsData nws)),
             emit_progress ''reddit_searched''
               (''Found '' @ nat_to_string (length posts) @ '' Reddit discussions'')
               (Some (RedditData posts)),
             emit_progress ''generating_ideas'' ''Generating video ideas with AI...'' None,
             Invoke ''generateVideoIdeas'',
             emit_progress ''ideas_generated'' ''Generated 5 video ideas''
               (Some (IdeasData ideas)),
             emit_complete
               \<lparr>topics = tps, news = nws, redditPosts = posts, videoIdeas = ideas\<rparr>,
             Close])"
  using assms by (simp add: POST_run actions_defs promise_all2_def)

theorem complete_carries_all_four_arrays_witness:
  "last (frames (snd (POST example_collaborators example_request))) =
     Frame ''complete''
       (Complete \<lparr>topics = [''Tech'', ''AI''], news = [], redditPosts = [],
                   videoIdeas = example_ideas\<rparr>)"
  unfolding example_request_def
  using complete_carries_all_four_arrays
    [OF example_url, of example_collaborators
        "[example_video ''A'', example_video ''B'', example_video ''C'']"
        "[''Tech'', ''AI'']" "[]" "[]" example_ideas]
  by (simp add: example_collaborators_def)

section \<open>Failures in the parallel stage\<close>

text \<open>
  Claim C1, as stated, fails: with a news search that rejects, the run ends with an
  \<^verbatim>\<open>error\<close> frame and writes no \<^verbatim>\<open>complete\<close> frame. The two promises are awaited
  through \<^verbatim>\<open>Promise.all\<close> inside the one \<^verbatim>\<open>try\<close> block of the handler.
\<close>

theorem news_rejection_counterexample:
  "POST (example_collaborators\<lparr>newsSearch := (\<lambda>tps. Rejected (Error ''news service down''))\<rparr>)
      example_request =
     (Inr (),
      [emit_progress ''fetching_videos'' ''Fetching YouTube videos...'' None,
       Invoke ''fetchChannelVideos'',
       emit_progress ''videos_fetched'' ''Found 3 videos'' (Some (VideoCount 3)),
       emit_progress ''analyzing_topics'' ''Analyzing topics with AI...'' None,
       Invoke ''analyzeTopics'',
       emit_progress ''topics_analyzed'' ''Identified 2 main topics''
         (Some (TopicsData [''Tech'', ''AI''])),
       emit_progress ''fetching_news'' ''Fetching relevant news...'' None,
       Invoke ''fetchRelevantNews'',
       emit_progress ''searching_reddit'' ''Searching Reddit discussions...'' None,
       Invoke ''searchRedditPosts'',
       emit_error ''news service down'',
       Close])"
  by (simp add: POST_run actions_defs example_collaborators_def example_request_def
      promise_all2_def Error_def nat_to_string.simps digit_char_def)

text \<open>
  Claim C1, amended. When the news search or the discussion search rejects, the run
  ends, right after the two calls, with one \<^verbatim>\<open>error\<close> frame and the close of the
  stream: the frame carries the message of one of the rejections (the fixed text when
  that message is empty), idea generation is not called and no \<^verbatim>\<open>complete\<close> frame is
  written.
\<close>

theorem stage4_rejection_is_terminal_error:
  assumes "get_prop (Some parsed) ''url'' = Inr (Some (JStr u))" and "u \<noteq> []"
    and "videoLookup deps u = Resolved videos" and "videos \<noteq> []"
    and "topicExtraction deps videos = Resolved tps"
    and "newsSearch deps tps = Rejected e1 \<or> discussionSearch deps tps = Rejected e2"
  shows "\<exists>e. (newsSearch deps tps = Rejected e \<or> discussionSearch deps tps = Rejected e) \<and>
           POST deps (Resolved parsed) =
             (Inr (),
              [emit_progress ''fetching_videos'' ''Fetching YouTube videos...'' None,
               Invoke ''fetchChannelVideos'',
               emit_progress ''videos_fetched''
                 (''Found '' @ nat_to_string (length videos) @ '' videos'')
                 (Some (VideoCount (length videos))),
               emit_progress ''analyzing_topics'' ''Analyzing topics with AI...'' None,
               Invoke ''analyzeTopics'',
               emit_progress ''topics_analyzed''
                 (''Identified '' @ nat_to_string (length tps) @ '' main topics'')
                 (Some (TopicsData tps)),
               emit_progress ''fetching_news'' ''Fetching relevant news...'' None,
               Invoke ''fetchRelevantNews'',
               emit_progress ''searching_reddit'' ''Searching Reddit discussions...'' None,
               Invoke ''searchRedditPosts'',
               emit_error (if message e \<noteq> [] then message e
                           else ''An error occurred while analyzing the channel''),
               Close])"
proof -
  obtain e where rej:
      "promise_all2 (news_settles_first deps) (newsSearch deps tps) (discussionSearch deps tps)
         = Rejected e"
    and src: "newsSearch deps tps = Rejected e \<or> discussionSearch deps tps = Rejected e"
    using assms(6)
    by (cases "newsSearch deps tps"; cases "discussionSearch deps tps")
       (auto simp: promise_all2_def)
  from assms(1-5) rej have
    "POST deps (Resolved parsed) =
       (Inr (),
        [emit_progress ''fetching_videos'' ''Fetching YouTube videos...'' None,
         Invoke ''fetchChannelVideos'',
         emit_progress ''videos_fetched''
           (''Found '' @ nat_to_string (length videos) @ '' videos'')
           (Some (VideoCount (length videos))),
         emit_progress ''analyzing_topics'' ''Analyzing topics with AI...'' None,
         Invoke ''analyzeTopics'',
         emit_progress ''topics_analyzed''
           (''Identified '' @ nat_to_string (length tps) @ '' main topics'')
           (Some (TopicsData tps)),
         emit_progress ''fetching_news'' ''Fetching relevant news...'' None,
         Invoke ''fetchRelevantNews'',
         emit_progress ''searching_reddit'' ''Searching Reddit discussions...'' None,
         Invoke ''searchRedditPosts'',
         emit_error (if message e \<noteq> [] then message e
                     else ''An error occurred while analyzing the channel''),
         Close])"
    by (simp add: POST_run actions_defs)
  with src show ?thesis by blast
qed

theorem stage4_rejection_is_terminal_error_witness:
  "last (frames (snd (POST
      (example_collaborators\<lparr>discussionSearch := (\<lambda>tps. Rejected (Error ''blocked''))\<rparr>)
      example_request))) = Frame ''error'' (ErrorMessage ''blocked'')"
  unfolding example_request_def
  using stage4_rejection_is_terminal_error
    [OF example_url, of
      "example_collaborators\<lparr>discussionSearch := (\<lambda>tps. Rejected (Error ''blocked''))\<rparr>"
      "[example_video ''A'', example_video ''B'', example_video ''C'']" "[''Tech'', ''AI'']"
      "Error ''blocked''" "Error ''blocked''"]
  by (auto simp: example_collaborators_def Error_def)

section \<open>The shape of every run\<close>

lemma frames_append: "frames (xs @ ys) = frames xs @ frames ys"
  by (induction xs rule: frames.induct) simp_all

lemma ends_error: "ends_with_terminal [emit_error m, Close]"
  unfolding ends_with_terminal_def
  by (rule exI [of _ "[]"]) (simp add: closed_def)

lemma ends_complete: "ends_with_terminal [emit_complete r, Close]"
  unfolding ends_with_terminal_def
  by (rule exI [of _ "[]"]) (simp add: closed_def)

lemma ends_Cons:
  assumes "ends_with_terminal tr" and "a \<noteq> Close" and "filter terminal (frames [a]) = []"
  shows "ends_with_terminal (a # tr)"
proof -
  from assms(1) obtain pre f where tr: "tr = pre @ [Enqueue f, Close]"
    and f: "(\<exists>r. f = Frame ''complete'' (Complete r)) \<or> (\<exists>m. f = Frame ''error'' (ErrorMessage m))"
    and pre: "\<not> closed pre" "filter terminal (frames pre) = []"
    unfolding ends_with_terminal_def by blast
  have "a # tr = (a # pre) @ [Enqueue f, Close]" using tr by simp
  moreover have "\<not> closed (a # pre)" using pre(1) assms(2) by (simp add: closed_def)
  moreover have "filter terminal (frames (a # pre)) = []"
    using pre(2) assms(3) by (cases a) (simp_all split: if_splits)
  ultimately show ?thesis unfolding ends_with_terminal_def using f by blast
qed

lemma ends_progress: "ends_with_terminal tr \<Longrightarrow> ends_with_terminal (emit_progress s m d # tr)"
  by (rule ends_Cons) (simp_all add: terminal_def)

lemma ends_invoke: "ends_with_terminal tr \<Longrightarrow> ends_with_terminal (Invoke n # tr)"
  by (rule ends_Cons) simp_all

lemma ends_caught: "ends_with_terminal (caught e)"
  by (simp add: caught_def ends_error)

lemmas ends_intros = ends_error ends_complete ends_progress ends_invoke ends_caught

lemma ideas_ends: "ends_with_terminal (ideas_actions deps videos tps nws posts)"
  by (simp add: ideas_actions_def ends_intros split: outcome.splits)

lemma stage4_ends: "ends_with_terminal (stage4_actions deps videos tps)"
  by (simp add: stage4_actions_def ends_intros ideas_ends split: outcome.splits prod.splits)

lemma topics_ends: "ends_with_terminal (topics_actions deps videos)"
  by (simp add: topics_actions_def ends_intros stage4_ends split: outcome.splits)

lemma videos_ends: "ends_with_terminal (videos_actions deps url)"
  by (simp add: videos_actions_def ends_intros topics_ends split: outcome.splits)

lemma run_ends: "ends_with_terminal (run_actions deps body)"
  by (simp add: run_actions_def ends_intros videos_ends split: outcome.splits sum.splits)

text \<open>
  Claim C2. Every run of the handler returns normally and ends with exactly one
  terminal frame, a \<^verbatim>\<open>complete\<close> frame with the result or an \<^verbatim>\<open>error\<close> frame with
  a message, followed at once by the close of the stream. No frame before it is
  terminal, so it is the only terminal frame of the run; the stream is not closed before
  it, and nothing follows the close.
\<close>

theorem exactly_one_terminal_event:
  "\<exists>pre f. POST deps body = (Inr (), pre @ [Enqueue f, Close]) \<and>
     ((\<exists>r. f = Frame ''complete'' (Complete r)) \<or> (\<exists>m. f = Frame ''error'' (ErrorMessage m))) \<and>
     \<not> closed pre \<and> filter terminal (frames pre) = [] \<and>
     filter terminal (frames (snd (POST deps body))) = [f]"
proof -
  from run_ends [of deps body] obtain pre f where run: "run_actions deps body = pre @ [Enqueue f, Close]"
    and f: "(\<exists>r. f = Frame ''complete'' (Complete r)) \<or> (\<exists>m. f = Frame ''error'' (ErrorMessage m))"
    and pre: "\<not> closed pre" "filter terminal (frames pre) = []"
    unfolding ends_with_terminal_def by blast
  from f have "terminal f" by (auto simp: terminal_def)
  with run pre(2) have "filter terminal (frames (run_actions deps body)) = [f]"
    by (simp add: frames_append)
  with run f pre show ?thesis by (simp add: POST_run)
qed

theorem exactly_one_terminal_event_witness:
  "filter terminal (frames (snd (POST example_collaborators example_request))) =
     [Frame ''complete''
        (Complete \<lparr>topics = [''Tech'', ''AI''], news = [], redditPosts = [],
                    videoIdeas = example_ideas\<rparr>)]"
proof -
  obtain pre f where run: "POST example_collaborators example_request =
      (Inr (), pre @ [Enqueue f, Close])"
    and one: "filter terminal (frames (snd (POST example_collaborators example_request))) = [f]"
    using exactly_one_terminal_event [of example_collaborators example_request] by blast
  from run have "last (frames (snd (POST example_collaborators example_request))) = f"
    by (simp add: frames_append)
  then have "f = Frame ''complete''
        (Complete \<lparr>topics = [''Tech'', ''AI''], news = [], redditPosts = [],
                    videoIdeas = example_ideas\<rparr>)"
    by (simp add: POST_run example_run)
  with one show ?thesis by simp
qed

section \<open>The order of the progress reports\<close>

lemma steps_of_simps:
  "steps_of [] = []"
  "steps_of (emit_progress s m d # tr) = s # steps_of tr"
  "steps_of (emit_error e # tr) = steps_of tr"
  "steps_of (emit_complete r # tr) = steps_of tr"
  "steps_of (Invoke n # tr) = steps_of tr"
  "steps_of (Close # tr) = steps_of tr"
  by (simp_all add: steps_of_def)

lemma steps_of_caught: "steps_of (caught e) = []"
  by (simp add: caught_def steps_of_simps)

lemma ideas_steps:
  "steps_of (ideas_actions deps videos tps nws posts) \<in>
     {[''generating_ideas''], [''generating_ideas'', ''ideas_generated'']}"
  by (simp add: ideas_actions_def steps_of_simps steps_of_caught split: outcome.splits)

lemma stage4_steps:
  "steps_of (stage4_actions deps videos tps) \<in>
     {[''fetching_news'', ''searching_reddit''],
      [''fetching_news'', ''searching_reddit'', ''news_fetched'', ''reddit_searched'',
       ''generating_ideas''],
      [''fetching_news'', ''searching_reddit'', ''news_fetched'', ''reddit_searched'',
       ''generating_ideas'', ''ideas_generated'']}"
proof (cases "promise_all2 (news_settles_first deps) (newsSearch deps tps)
                (discussionSearch deps tps)")
  case (Rejected e)
  then show ?thesis by (simp add: stage4_actions_def steps_of_simps steps_of_caught)
next
  case (Resolved r)
  obtain nws posts where r: "r = (nws, posts)" by (cases r)
  from ideas_steps [of deps videos tps nws posts] Resolved r show ?thesis
    by (auto simp: stage4_actions_def steps_of_simps)
qed

lemma topics_steps:
  "steps_of (topics_actions deps videos) \<in>
     {[''analyzing_topics''],
      [''analyzing_topics'', ''topics_analyzed'', ''fetching_news'', ''searching_reddit''],
      [''analyzing_topics'', ''topics_analyzed'', ''fetching_news'', ''searching_reddit'',
       ''news_fetched'', ''reddit_searched'', ''generating_ideas''],
      [''analyzing_topics'', ''topics_analyzed'', ''fetching_news'', ''searching_reddit'',
       ''news_fetched'', ''reddit_searched'', ''generating_ideas'', ''ideas_generated'']}"
proof (cases "topicExtraction deps videos")
  case (Rejected e)
  then show ?thesis by (simp add: topics_actions_def steps_of_simps steps_of_caught)
next
  case (Resolved tps)
  from stage4_steps [of deps videos tps] Resolved show ?thesis
    by (auto simp: topics_actions_def steps_of_simps)
qed

lemma videos_steps:
  "steps_of (videos_actions deps url) \<in>
     {[''fetching_videos''],
      [''fetching_videos'', ''videos_fetched'', ''analyzing_topics''],
      [''fetching_videos'', ''videos_fetched'', ''analyzing_topics'', ''topics_analyzed'',
       ''fetching_news'', ''searching_reddit''],
      [''fetching_videos'', ''videos_fetched'', ''analyzing_topics'', ''topics_analyzed'',
       ''fetching_news'', ''searching_reddit'', ''news_fetched'', ''reddit_searched'',
       ''generating_ideas''],
      [''fetching_videos'', ''videos_fetched'', ''analyzing_topics'', ''topics_analyzed'',
       ''fetching_news'', ''searching_reddit'', ''news_fetched'', ''reddit_searched'',
       ''generating_ideas'', ''ideas_generated'']}"
proof (cases "videoLookup deps url")
  case (Rejected e)
  then show ?thesis by (simp add: videos_actions_def steps_of_simps steps_of_caught)
next
  case (Resolved videos)
  from topics_steps [of deps videos] Resolved show ?thesis
    by (auto simp: videos_actions_def steps_of_simps)
qed

text \<open>The step names of a run are one of six beginnings of the table without its head.\<close>

lemma run_steps:
  "steps_of (run_actions deps body) \<in>
     {[],
      [''fetching_videos''],
      [''fetching_videos'', ''videos_fetched'', ''analyzing_topics''],
      [''fetching_videos'', ''videos_fetched'', ''analyzing_topics'', ''topics_analyzed'',
       ''fetching_news'', ''searching_reddit''],
      [''fetching_videos'', ''videos_fetched'', ''analyzing_topics'', ''topics_analyzed'',
       ''fetching_news'', ''searching_reddit'', ''news_fetched'', ''reddit_searched'',
       ''generating_ideas''],
      [''fetching_videos'', ''videos_fetched'', ''analyzing_topics'', ''topics_analyzed'',
       ''fetching_news'', ''searching_reddit'', ''news_fetched'', ''reddit_searched'',
       ''generating_ideas'', ''ideas_generated'']}"
proof -
  have "run_actions deps body = [emit_error ''YouTube channel URL is required'', Close] \<or>
        (\<exists>e. run_actions deps body = caught e) \<or>
        (\<exists>url. run_actions deps body = videos_actions deps url)"
    by (auto simp: run_actions_def split: outcome.splits sum.splits)
  then consider "run_actions deps body = [emit_error ''YouTube channel URL is required'', Close]"
    | e where "run_actions deps body = caught e"
    | url where "run_actions deps body = videos_actions deps url"
    by blast
  then show ?thesis
  proof cases
    case 1
    then show ?thesis by (simp add: steps_of_simps)
  next
    case 2
    then show ?thesis by (simp add: steps_of_caught)
  next
    case 3
    with videos_steps [of deps url] show ?thesis by auto
  qed
qed

lemma run_sorted:
  "sorted (map (indexOf stepOrder) (steps_of (run_actions deps body)))"
  using run_steps [of deps body]
  by (auto simp: indexOf_def stepOrder_def)

lemma run_in_table: "set (steps_of (run_actions deps body)) \<subseteq> set stepOrder"
  using run_steps [of deps body] by (auto simp: stepOrder_def)

lemma run_never_starting:
  "''starting'' \<notin> set (steps_of (run_actions deps body))"
  using run_steps [of deps body] by auto

lemma run_first_frame:
  "\<exists>f fs. frames (run_actions deps body) = f # fs \<and>
     (f = Frame ''progress'' (Progress ''fetching_videos'' ''Fetching YouTube videos...'' None) \<or>
      (\<exists>m. f = Frame ''error'' (ErrorMessage m)))"
  by (simp add: run_actions_def videos_actions_def caught_def split: outcome.splits sum.splits)

text \<open>
  Claim C3. In every run the ranks of the reported steps in the table never decrease,
  and every reported step is in the table. When the two calls of the parallel stage
  both resolve, the first eight reports are the same whichever call settles first, with
  \<^verbatim>\<open>news_fetched\<close> before \<^verbatim>\<open>reddit_searched\<close>.
\<close>

theorem progress_steps_follow_table:
  "sorted (map (indexOf stepOrder) (progress_steps (frames (snd (POST deps body))))) \<and>
   set (progress_steps (frames (snd (POST deps body)))) \<subseteq> set stepOrder \<and>
   (get_prop (Some parsed) ''url'' = Inr (Some (JStr u)) \<and> u \<noteq> [] \<and>
    videoLookup deps u = Resolved videos \<and> videos \<noteq> [] \<and>
    topicExtraction deps videos = Resolved tps \<and>
    newsSearch deps tps = Resolved nws \<and> discussionSearch deps tps = Resolved posts
    \<longrightarrow>
    take 8 (progress_steps (frames (snd
      (POST (deps\<lparr>news_settles_first := first\<rparr>) (Resolved parsed))))) =
      [''fetching_videos'', ''videos_fetched'', ''analyzing_topics'', ''topics_analyzed'',
       ''fetching_news'', ''searching_reddit'', ''news_fetched'', ''reddit_searched''])"
proof (intro conjI impI)
  show "sorted (map (indexOf stepOrder) (progress_steps (frames (snd (POST deps body)))))"
    using run_sorted [of deps body] by (simp add: POST_run steps_of_def)
  show "set (progress_steps (frames (snd (POST deps body)))) \<subseteq> set stepOrder"
    using run_in_table [of deps body] by (simp add: POST_run steps_of_def)
next
  assume a: "get_prop (Some parsed) ''url'' = Inr (Some (JStr u)) \<and> u \<noteq> [] \<and>
    videoLookup deps u = Resolved videos \<and> videos \<noteq> [] \<and>
    topicExtraction deps videos = Resolved tps \<and>
    newsSearch deps tps = Resolved nws \<and> discussionSearch deps tps = Resolved posts"
  then show "take 8 (progress_steps (frames (snd
      (POST (deps\<lparr>news_settles_first := first\<rparr>) (Resolved parsed))))) =
      [''fetching_videos'', ''videos_fetched'', ''analyzing_topics'', ''topics_analyzed'',
       ''fetching_news'', ''searching_reddit'', ''news_fetched'', ''reddit_searched'']"
    by (simp add: POST_run actions_defs promise_all2_def split: outcome.splits)
qed

theorem progress_steps_follow_table_witness:
  "take 8 (progress_steps (frames (snd
      (POST (example_collaborators\<lparr>news_settles_first := False\<rparr>) example_request)))) =
      [''fetching_videos'', ''videos_fetched'', ''analyzing_topics'', ''topics_analyzed'',
       ''fetching_news'', ''searching_reddit'', ''news_fetched'', ''reddit_searched'']"
  unfolding example_request_def
  using progress_steps_follow_table
    [of example_collaborators example_request
        "JObj [(''url'', JStr ''https://www.youtube.com/@example'')]"
        "''https://www.youtube.com/@example''"
        "[example_video ''A'', example_video ''B'', example_video ''C'']"
        "[''Tech'', ''AI'']" "[]" "[]" False]
  by (simp add: example_collaborators_def)

text \<open>
  Claim C9. No run reports the step \<^verbatim>\<open>starting\<close>, the head of the table: the first
  frame of every run is the \<^verbatim>\<open>fetching_videos\<close> report or an \<^verbatim>\<open>error\<close> frame. The
  \<^verbatim>\<open>starting\<close> entry is the one the consumer puts in its list before it sends the
  request.
\<close>

theorem producer_never_emits_starting:
  "''starting'' \<notin> set (progress_steps (frames (snd (POST deps body)))) \<and>
   (\<exists>f fs. frames (snd (POST deps body)) = f # fs \<and>
      (f = Frame ''progress'' (Progress ''fetching_videos'' ''Fetching YouTube videos...'' None) \<or>
       (\<exists>m. f = Frame ''error'' (ErrorMessage m)))) \<and>
   hd stepOrder = ''starting'' \<and>
   map ps_step initial_progress = [''starting'']"
  using run_never_starting [of deps body] run_first_frame [of deps body]
  by (simp add: POST_run steps_of_def stepOrder_def initial_progress_def)

theorem producer_never_emits_starting_witness:
  "hd (frames (snd (POST example_collaborators example_request))) =
     Frame ''progress'' (Progress ''fetching_videos'' ''Fetching YouTube videos...'' None)"
  using producer_never_emits_starting [of example_collaborators example_request]
  by (simp add: POST_run example_run)

section \<open>The contract of the discussion search\<close>

lemma keep_child_True: "keep_child c = Inr True \<Longrightarrow> \<not> marked_adult c"
  by (auto simp: keep_child_def marked_adult_def bind_sum_def opt_prop_def
      split: sum.splits if_splits)

lemma child_post_eq: "child_post c = Inr p \<Longrightarrow> p = post_of c"
  by (auto simp: child_post_def post_of_def bind_sum_def opt_prop_def split: sum.splits)

lemma filter_throwing_Inr:
  "filter_throwing f xs = Inr ys \<Longrightarrow> set ys \<subseteq> set xs \<and> (\<forall>y\<in>set ys. f y = Inr True)"
proof (induction xs arbitrary: ys)
  case Nil
  then show ?case by simp
next
  case (Cons x xs)
  from Cons.prems obtain keep rest where k: "f x = Inr keep"
    and r: "filter_throwing f xs = Inr rest" and ys: "ys = (if keep then x # rest else rest)"
    by (auto simp: bind_sum_def split: sum.splits)
  from Cons.IH [OF r] k ys show ?case by auto
qed

lemma map_throwing_Inr:
  "map_throwing f xs = Inr ys \<Longrightarrow> \<forall>y\<in>set ys. \<exists>x\<in>set xs. f x = Inr y"
proof (induction xs arbitrary: ys)
  case Nil
  then show ?case by simp
next
  case (Cons x xs)
  from Cons.prems obtain y rest where y: "f x = Inr y"
    and r: "map_throwing f xs = Inr rest" and ys: "ys = y # rest"
    by (auto simp: bind_sum_def split: sum.splits)
  from Cons.IH [OF r] y ys show ?case by auto
qed

lemma children_posts_Inr:
  assumes "children_posts children = Inr posts"
  shows "\<exists>cs. children = Some (JArr cs) \<and>
           (\<forall>p\<in>set posts. \<exists>c\<in>set cs. \<not> marked_adult c \<and> p = post_of c)"
proof -
  from assms obtain cs kept where c: "children = Some (JArr cs)"
    and k: "filter_throwing keep_child cs = Inr kept"
    and m: "map_throwing child_post kept = Inr posts"
    by (auto simp: children_posts_def bind_sum_def split: option.splits json.splits sum.splits)
  have "\<exists>c\<in>set cs. \<not> marked_adult c \<and> p = post_of c" if "p \<in> set posts" for p
  proof -
    from map_throwing_Inr [OF m] that obtain x where x: "x \<in> set kept" "child_post x = Inr p"
      by blast
    from filter_throwing_Inr [OF k] x(1) have "x \<in> set cs" "keep_child x = Inr True" by auto
    with x(2) show ?thesis using keep_child_True child_post_eq by blast
  qed
  with c show ?thesis by blast
qed

lemma endpoint_result_Some:
  assumes "endpoint_result w i topic endpoint = Some posts" and "endpoint \<in> set endpoints"
  shows "\<forall>p\<in>set posts. \<exists>c\<in>set (listed_at w i topic). \<not> marked_adult c \<and> p = post_of c"
proof -
  from assms(1) obtain status d where
      reply: "reddit_http w i endpoint topic = Reply status d"
    and posts: "children_posts (opt_prop (opt_prop d ''data'') ''children'') = Inr posts"
    by (auto simp: endpoint_result_def try_endpoint_def catch_endpoint_def axios_get_def
        bind_sum_def Let_def
        split: sum.splits http_reply.splits if_splits prod.splits)
  from children_posts_Inr [OF posts] obtain cs where
      cs: "opt_prop (opt_prop d ''data'') ''children'' = Some (JArr cs)"
    and all: "\<forall>p\<in>set posts. \<exists>c\<in>set cs. \<not> marked_adult c \<and> p = post_of c"
    by blast
  from reply cs assms(2) have "set cs \<subseteq> set (listed_at w i topic)"
    by (auto simp: listed_at_def reply_children_def)
  with all show ?thesis by blast
qed

lemma search_topic_posts:
  assumes "p \<in> set (fst (search_topic w i topic eps allPosts))"
    and "set eps \<subseteq> set endpoints"
  shows "p \<in> set allPosts \<or> (\<exists>c\<in>set (listed_at w i topic). \<not> marked_adult c \<and> p = post_of c)"
  using assms
proof (induction eps)
  case Nil
  then show ?case by simp
next
  case (Cons ep eps)
  show ?case
  proof (cases "endpoint_result w i topic ep")
    case None
    with Cons show ?thesis by simp
  next
    case (Some posts)
    with Cons.prems have "p \<in> set allPosts \<or> p \<in> set posts" and "ep \<in> set endpoints"
      by simp_all
    with endpoint_result_Some [OF Some] show ?thesis by blast
  qed
qed

lemma search_topics_posts:
  assumes "p \<in> set (search_topics w i ts allPosts)"
  shows "p \<in> set allPosts \<or>
         (\<exists>j<length ts. \<exists>c\<in>set (listed_at w (i + j) (ts ! j)). \<not> marked_adult c \<and> p = post_of c)"
  using assms
proof (induction ts arbitrary: i allPosts)
  case Nil
  then show ?case by simp
next
  case (Cons t ts)
  from Cons.prems have "p \<in> set (search_topics w (Suc i) ts (fst (search_topic w i t endpoints allPosts)))"
    by simp
  from Cons.IH [OF this] consider
      (old) "p \<in> set (fst (search_topic w i t endpoints allPosts))"
    | (new) j where "j < length ts"
        "\<exists>c\<in>set (listed_at w (Suc i + j) (ts ! j)). \<not> marked_adult c \<and> p = post_of c"
    by blast
  then show ?case
  proof cases
    case old
    from search_topic_posts [OF old subset_refl] show ?thesis
    proof
      assume "p \<in> set allPosts" then show ?thesis by simp
    next
      assume "\<exists>c\<in>set (listed_at w i t). \<not> marked_adult c \<and> p = post_of c"
      then have "\<exists>c\<in>set (listed_at w (i + 0) ((t # ts) ! 0)). \<not> marked_adult c \<and> p = post_of c"
        by simp
      then show ?thesis by blast
    qed
  next
    case new
    then have "Suc j < length (t # ts)"
      and "\<exists>c\<in>set (listed_at w (i + Suc j) ((t # ts) ! Suc j)). \<not> marked_adult c \<and> p = post_of c"
      by simp_all
    then show ?thesis by blast
  qed
qed

lemma js_Map_invariant:
  assumes "distinct (map fst m)" and "\<forall>(k, v)\<in>set m. k = key v \<and> v \<in> S"
    and "set xs \<subseteq> S"
  shows "distinct (map fst (fold (\<lambda>(k, v) m. AList.update k v m) (map (\<lambda>x. (key x, x)) xs) m)) \<and>
         (\<forall>(k, v)\<in>set (fold (\<lambda>(k, v) m. AList.update k v m) (map (\<lambda>x. (key x, x)) xs) m).
            k = key v \<and> v \<in> S)"
  using assms
proof (induction xs arbitrary: m)
  case Nil
  then show ?case by simp
next
  case (Cons x xs)
  have d: "distinct (map fst (AList.update (key x) x m))"
    using Cons.prems(1) by (rule distinct_update)
  have "set (AList.update (key x) x m) \<subseteq> insert (key x, x) (set m)"
    by (induction m) auto
  with Cons.prems(2,3) have i: "\<forall>(k, v)\<in>set (AList.update (key x) x m). k = key v \<and> v \<in> S"
    by auto
  from Cons.IH [OF d i] Cons.prems(3) show ?case by simp
qed

lemma uniquePosts_props:
  "length (uniquePosts xs) \<le> 10 \<and> distinct (map post_url (uniquePosts xs)) \<and>
   set (uniquePosts xs) \<subseteq> set xs"
proof -
  let ?m = "js_Map (map (\<lambda>post. (post_url post, post)) xs)"
  have inv: "distinct (map fst ?m) \<and> (\<forall>(k, v)\<in>set ?m. k = post_url v \<and> v \<in> set xs)"
    unfolding js_Map_def
    by (rule js_Map_invariant) simp_all
  then have "map post_url (Map_values ?m) = map fst ?m"
    by (auto simp: Map_values_def)
  with inv have "distinct (map post_url (Map_values ?m))" by simp
  then have "distinct (take 10 (map post_url (Map_values ?m)))" by (rule distinct_take)
  then have d: "distinct (map post_url (uniquePosts xs))"
    by (simp add: uniquePosts_def take_map)
  from inv have "set (Map_values ?m) \<subseteq> set xs" by (auto simp: Map_values_def)
  then have "set (uniquePosts xs) \<subseteq> set xs"
    unfolding uniquePosts_def using set_take_subset by fast
  with d show ?thesis by (simp add: uniquePosts_def)
qed

lemma try_topic_v1_Inr:
  assumes "try_topic_v1 w i topic = Inr posts"
  shows "\<forall>p\<in>set posts. \<exists>c\<in>set (listed_at w i topic). \<not> marked_adult c \<and> p = post_of c"
proof (cases "posts = []")
  case True
  then show ?thesis by simp
next
  case False
  with assms obtain status d where
      reply: "reddit_http w i ''https://www.reddit.com/search.json'' topic = Reply status d"
    and posts: "children_posts (opt_prop (opt_prop d ''data'') ''children'') = Inr posts"
    by (auto simp: try_topic_v1_def axios_get_def bind_sum_def Let_def
        split: sum.splits http_reply.splits if_splits prod.splits)
  from children_posts_Inr [OF posts] obtain cs where
      cs: "opt_prop (opt_prop d ''data'') ''children'' = Some (JArr cs)"
    and all: "\<forall>p\<in>set posts. \<exists>c\<in>set cs. \<not> marked_adult c \<and> p = post_of c"
    by blast
  from reply cs have "set cs \<subseteq> set (listed_at w i topic)"
    by (auto simp: listed_at_def reply_children_def endpoints_def)
  with all show ?thesis by blast
qed

lemma search_topics_v1_posts:
  assumes "p \<in> set (search_topics_v1 w i ts allPosts)"
  shows "p \<in> set allPosts \<or>
         (\<exists>j<length ts. \<exists>c\<in>set (listed_at w (i + j) (ts ! j)). \<not> marked_adult c \<and> p = post_of c)"
  using assms
proof (induction ts arbitrary: i allPosts)
  case Nil
  then show ?case by simp
next
  case (Cons t ts)
  let ?next = "case try_topic_v1 w i t of Inl error \<Rightarrow> allPosts | Inr posts \<Rightarrow> allPosts @ posts"
  from Cons.prems have "p \<in> set (search_topics_v1 w (Suc i) ts ?next)" by simp
  from Cons.IH [OF this] consider
      (old) "p \<in> set ?next"
    | (new) j where "j < length ts"
        "\<exists>c\<in>set (listed_at w (Suc i + j) (ts ! j)). \<not> marked_adult c \<and> p = post_of c"
    by blast
  then show ?case
  proof cases
    case old
    then have "p \<in> set allPosts \<or> (\<exists>posts. try_topic_v1 w i t = Inr posts \<and> p \<in> set posts)"
      by (auto split: sum.splits)
    then show ?thesis
    proof
      assume "p \<in> set allPosts" then show ?thesis by simp
    next
      assume "\<exists>posts. try_topic_v1 w i t = Inr posts \<and> p \<in> set posts"
      with try_topic_v1_Inr have "\<exists>c\<in>set (listed_at w i t). \<not> marked_adult c \<and> p = post_of c"
        by blast
      then have "\<exists>c\<in>set (listed_at w (i + 0) ((t # ts) ! 0)). \<not> marked_adult c \<and> p = post_of c"
        by simp
      then show ?thesis by blast
    qed
  next
    case new
    then have "Suc j < length (t # ts)"
      and "\<exists>c\<in>set (listed_at w (i + Suc j) ((t # ts) ! Suc j)). \<not> marked_adult c \<and> p = post_of c"
      by simp_all
    then show ?thesis by blast
  qed
qed

lemma listed_take:
  assumes "j < length (take 3 tps)" and "c \<in> set (listed_at w (0 + j) (take 3 tps ! j))"
  shows "c \<in> set (listed w tps)"
proof -
  from assms(1) have "j \<in> set [0..<min 3 (length tps)]" by simp
  moreover from assms have "c \<in> set (listed_at w j (tps ! j))" by simp
  ultimately show ?thesis unfolding listed_def by auto
qed

lemma searchRedditPosts_props:
  "\<exists>posts. searchRedditPosts w tps = Resolved posts \<and> length posts \<le> 10 \<and>
     distinct (map post_url posts) \<and>
     (\<forall>p\<in>set posts. \<exists>c\<in>set (listed w tps). \<not> marked_adult c \<and> p = post_of c)"
proof -
  let ?all = "search_topics w 0 (take 3 tps) []"
  have eq: "searchRedditPosts w tps = Resolved (uniquePosts ?all)"
    by (simp add: searchRedditPosts_def searchRedditPosts_try_def)
  have "\<exists>c\<in>set (listed w tps). \<not> marked_adult c \<and> p = post_of c" if "p \<in> set (uniquePosts ?all)" for p
  proof -
    from that uniquePosts_props [of ?all] have "p \<in> set ?all" by blast
    from search_topics_posts [OF this] obtain j c where "j < length (take 3 tps)"
      "c \<in> set (listed_at w (0 + j) (take 3 tps ! j))" "\<not> marked_adult c" "p = post_of c"
      by auto
    with listed_take show ?thesis by blast
  qed
  with eq uniquePosts_props [of ?all] show ?thesis by blast
qed

lemma searchRedditPosts_v1_props:
  "\<exists>posts. searchRedditPosts_v1 w tps = Resolved posts \<and> length posts \<le> 10 \<and>
     distinct (map post_url posts) \<and>
     (\<forall>p\<in>set posts. \<exists>c\<in>set (listed w tps). \<not> marked_adult c \<and> p = post_of c)"
proof -
  let ?all = "search_topics_v1 w 0 (take 3 tps) []"
  have eq: "searchRedditPosts_v1 w tps = Resolved (uniquePosts ?all)"
    by (simp add: searchRedditPosts_v1_def searchRedditPosts_v1_try_def)
  have "\<exists>c\<in>set (listed w tps). \<not> marked_adult c \<and> p = post_of c" if "p \<in> set (uniquePosts ?all)" for p
  proof -
    from that uniquePosts_props [of ?all] have "p \<in> set ?all" by blast
    from search_topics_v1_posts [OF this] obtain j c where "j < length (take 3 tps)"
      "c \<in> set (listed_at w (0 + j) (take 3 tps ! j))" "\<not> marked_adult c" "p = post_of c"
      by auto
    with listed_take show ?thesis by blast
  qed
  with eq uniquePosts_props [of ?all] show ?thesis by blast
qed

text \<open>
  Claim C8. For every list of topics and whatever Reddit answers, the discussion
  search resolves (it never rejects) to at most ten posts with pairwise different URLs,
  each made from a listed entry that is not marked adult; this holds for both versions
  of the function in the sources. The outer \<^verbatim>\<open>catch\<close> resolves to the empty list for
  any error.
\<close>

theorem discussion_search_contract:
  "(\<exists>posts. searchRedditPosts w tps = Resolved posts \<and> length posts \<le> 10 \<and>
      distinct (map post_url posts) \<and>
      (\<forall>p\<in>set posts. \<exists>c\<in>set (listed w tps). \<not> marked_adult c \<and> p = post_of c)) \<and>
   (\<exists>posts. searchRedditPosts_v1 w tps = Resolved posts \<and> length posts \<le> 10 \<and>
      distinct (map post_url posts) \<and>
      (\<forall>p\<in>set posts. \<exists>c\<in>set (listed w tps). \<not> marked_adult c \<and> p = post_of c)) \<and>
   searchRedditPosts_catch e = Resolved []"
  using searchRedditPosts_props [of w tps] searchRedditPosts_v1_props [of w tps]
  by (simp add: searchRedditPosts_catch_def)

lemma example_reddit_posts:
  "searchRedditPosts example_reddit [''Tech'', ''AI''] =
     Resolved [\<lparr>post_title = Some (JStr ''A thread''),
                post_url = ''https://www.reddit.com/r/technology/1'',
                post_subreddit = Some (JStr ''technology'')\<rparr>]"
  by (simp add: searchRedditPosts_def searchRedditPosts_try_def endpoints_def
      endpoint_result_def try_endpoint_def catch_endpoint_def axios_get_def bind_sum_def
      example_reddit_def example_child_def opt_prop_def children_posts_def keep_child_def
      child_post_def to_string_def uniquePosts_def js_Map_def Map_values_def)

theorem discussion_search_contract_witness:
  "searchRedditPosts example_reddit [''Tech'', ''AI''] =
     Resolved [post_of (example_child ''/r/technology/1'' False)] \<and>
   example_child ''/r/technology/2'' True \<in> set (listed example_reddit [''Tech'', ''AI'']) \<and>
   marked_adult (example_child ''/r/technology/2'' True)"
proof -
  have l: "example_child ''/r/technology/2'' True \<in> set (listed example_reddit [''Tech'', ''AI''])"
    by (simp add: listed_def listed_at_def endpoints_def reply_children_def example_reddit_def
        opt_prop_def upt_rec)
  have a: "marked_adult (example_child ''/r/technology/2'' True)"
    by (simp add: marked_adult_def example_child_def opt_prop_def)
  have p: "post_of (example_child ''/r/technology/1'' False) =
      \<lparr>post_title = Some (JStr ''A thread''),
       post_url = ''https://www.reddit.com/r/technology/1'',
       post_subreddit = Some (JStr ''technology'')\<rparr>"
    by (simp add: post_of_def example_child_def opt_prop_def to_string_def)
  from discussion_search_contract [of example_reddit "[''Tech'', ''AI'']" "Error []"]
  obtain posts where "searchRedditPosts example_reddit [''Tech'', ''AI''] = Resolved posts"
    by blast
  with example_reddit_posts p l a show ?thesis by simp
qed

section \<open>The repository's own news and discussion search\<close>

text \<open>
  \<^const>\<open>fetchRelevantNews\<close> resolves to at most five articles and never rejects, and
  neither does \<^const>\<open>searchRedditPosts\<close>: with the two functions of the repository, the
  \<^verbatim>\<open>Promise.all\<close> of the parallel stage resolves, whichever call settles first.
\<close>

lemma map_throwing_length: "map_throwing f xs = Inr ys \<Longrightarrow> length ys = length xs"
proof (induction xs arbitrary: ys)
  case Nil
  then show ?case by simp
next
  case (Cons x xs)
  from Cons.prems obtain y rest where "map_throwing f xs = Inr rest" and "ys = y # rest"
    by (auto simp: bind_sum_def split: sum.splits)
  with Cons.IH show ?case by simp
qed

lemma fetchRelevantNews_try_length:
  "fetchRelevantNews_try w tps = Inr articles \<Longrightarrow> length articles \<le> 5"
  by (auto simp: fetchRelevantNews_try_def bind_sum_def
      split: sum.splits prod.splits if_splits option.splits json.splits
      dest!: map_throwing_length)

lemma fetchRelevantNews_resolves:
  "\<exists>articles. fetchRelevantNews w tps = Resolved articles \<and> length articles \<le> 5"
  by (auto simp: fetchRelevantNews_def split: sum.splits dest: fetchRelevantNews_try_length)

lemma repository_stage4_resolves:
  "\<exists>nws posts.
     promise_all2 first (fetchRelevantNews nw tps) (searchRedditPosts rw tps) =
       Resolved (nws, posts)"
proof -
  obtain nws where "fetchRelevantNews nw tps = Resolved nws"
    using fetchRelevantNews_resolves by blast
  moreover obtain posts where "searchRedditPosts rw tps = Resolved posts"
    using searchRedditPosts_props by blast
  ultimately show ?thesis by (simp add: promise_all2_def)
qed

end
